theory Spec2Isabelle
  imports Main "HOL-Library.AList"
begin

section \<open>Python dictionaries\<close>

text \<open>
  A Python \<^verbatim>\<open>dict\<close> keeps its keys in insertion order and holds each key once. It is
  modelled as an association list; \<open>d[k] = v\<close> is \<^const>\<open>AList.update\<close> (the value is
  replaced in place when the key is present, the pair is appended otherwise).
\<close>

type_synonym 'v dict = "(string \<times> 'v) list"

definition dict_get :: "'v dict \<Rightarrow> string \<Rightarrow> 'v \<Rightarrow> 'v" where
  "dict_get d k dflt = (case map_of d k of None \<Rightarrow> dflt | Some v \<Rightarrow> v)"

definition dict_update :: "'v dict \<Rightarrow> 'v dict \<Rightarrow> 'v dict" where
  "dict_update d other = foldl (\<lambda>acc kv. AList.update (fst kv) (snd kv) acc) d other"

definition get_or :: "'a option \<Rightarrow> 'a \<Rightarrow> 'a" where
  "get_or x dflt = (case x of None \<Rightarrow> dflt | Some v \<Rightarrow> v)"

section \<open>The form schema\<close>

text \<open>
  A field descriptor of the provider's form, as \<^verbatim>\<open>_form_json_to_widgets_dict\<close> reads
  it. Every key the code reads with \<^verbatim>\<open>.get\<close> or tests with \<^verbatim>\<open>in\<close> is optional.
\<close>

record group =
  g_labels :: "string dict option"
  g_values :: "string list option"
  g_columns :: "int option"

record details =
  d_labels :: "string dict option"
  d_values :: "string list option"
  d_columns :: "int option"
  d_default :: "string list option"
  d_groups :: "group list option"

record schema_entry =
  w_name :: "string option"
  w_type :: "string option"
  w_label :: "string option"
  w_details :: "details option"

text \<open>The translated field: one value of the dictionary \<^verbatim>\<open>out_widgets\<close>.\<close>

record f_widget =
  fw_label :: "string option"
  fw_labels :: "string dict"
  fw_values :: "string list"
  fw_title :: string
  fw_type :: string
  fw_columns :: int
  fw_default :: "string list option"

definition no_details :: details where
  "no_details = \<lparr>d_labels = None, d_values = None, d_columns = None,
                  d_default = None, d_groups = None\<rparr>"

definition ignore_widget_names :: "string list" where
  "ignore_widget_names = [''download_format'', ''data_format'']"

definition ignore_widget_types :: "string list" where
  "ignore_widget_types = [''ExclusiveGroupWidget'', ''FreeEditionWidget'',
     ''GeographicExtentWidget'', ''GeographicLocationWidget'', ''LicenceWidget'']"

definition widget_map :: "string dict" where
  "widget_map = [(''StringListWidget'', ''checkbox''),
                 (''StringListArrayWidget'', ''checkbox''),
                 (''StringChoiceWidget'', ''radio'')]"

text \<open>
  The loop over \<^verbatim>\<open>details["groups"]\<close>. The comprehension
  \<^verbatim>\<open>[v for v in group.get("values", []) if v not in values]\<close> is evaluated against the
  list accumulated from the earlier groups, and only then appended.
\<close>

fun merge_groups ::
  "group list \<Rightarrow> string dict \<times> string list \<times> int \<Rightarrow> string dict \<times> string list \<times> int" where
  "merge_groups [] acc = acc"
| "merge_groups (g # gs) (labels, vals, columns) =
     merge_groups gs
       (dict_update labels (get_or (g_labels g) []),
        vals @ filter (\<lambda>v. v \<notin> set vals) (get_or (g_values g) []),
        max columns (get_or (g_columns g) 1))"

definition flatten_details :: "details \<Rightarrow> string dict \<times> string list \<times> int" where
  "flatten_details d =
     (case d_groups d of
        Some groups \<Rightarrow> merge_groups groups ([], [], 1)
      | None \<Rightarrow> (get_or (d_labels d) [], get_or (d_values d) [], get_or (d_columns d) 1))"

definition translate_entry :: "schema_entry \<Rightarrow> f_widget" where
  "translate_entry w =
     (let widget_type = get_or (w_type w) '''';
          d = get_or (w_details w) no_details;
          (labels, vals, columns) = flatten_details d
      in \<lparr>fw_label = w_label w,
          fw_labels = labels,
          fw_values = vals,
          fw_title = get_or (w_label w) '''',
          fw_type = dict_get widget_map widget_type widget_type,
          fw_columns = columns,
          fw_default = d_default d\<rparr>)"

fun form_loop :: "schema_entry list \<Rightarrow> f_widget dict \<Rightarrow> f_widget dict" where
  "form_loop [] out_widgets = out_widgets"
| "form_loop (w # ws) out_widgets =
     (let widget_name = get_or (w_name w) '''';
          widget_type = get_or (w_type w) ''''
      in if widget_name \<in> set ignore_widget_names \<or> widget_type \<in> set ignore_widget_types
         then form_loop ws out_widgets
         else if widget_name \<in> fst ` set out_widgets
         then form_loop ws out_widgets
         else form_loop ws (AList.update widget_name (translate_entry w) out_widgets))"

definition form_json_to_widgets_dict :: "schema_entry list \<Rightarrow> f_widget dict" where
  "form_json_to_widgets_dict form = form_loop form []"

section \<open>Controls\<close>

text \<open>
  A \<^verbatim>\<open>ToggleButton\<close>: its value, its description and the \<^verbatim>\<open>display\<close> attribute of
  its layout (\<open>None\<close> until the code assigns it, \<^verbatim>\<open>"none"\<close> when hidden).
\<close>

record toggle_button =
  tb_value :: bool
  tb_description :: string
  tb_display :: "string option"

text \<open>
  The two extraction closures of \<^verbatim>\<open>_build_form\<close>; each captures the button list and
  the option list of its field.
\<close>

datatype kind = Checkbox | Radio

definition get_value_checkbox :: "toggle_button list \<Rightarrow> string list \<Rightarrow> string list" where
  "get_value_checkbox tb_list opts =
     map fst (filter (\<lambda>(opt, tb). tb_value tb) (zip opts tb_list))"

fun first_on :: "(string \<times> toggle_button) list \<Rightarrow> string list" where
  "first_on [] = []"
| "first_on ((opt, tb) # rest) = (if tb_value tb then [opt] else first_on rest)"

definition get_value_radio :: "toggle_button list \<Rightarrow> string list \<Rightarrow> string list" where
  "get_value_radio tb_list opts = first_on (zip opts tb_list)"

text \<open>
  The control stored in \<^verbatim>\<open>widget_defs\<close>: the \<^verbatim>\<open>VBox\<close> of lines 178-188, holding the
  heading, the \<^verbatim>\<open>GridBox\<close> of buttons, and the extraction closure attached as
  \<^verbatim>\<open>_get_value\<close> (its kind and captured options; the captured button list is the grid's).
  \<^verbatim>\<open>_build_form\<close> is the only writer of \<^verbatim>\<open>widget_defs\<close> and stores nothing else, so for
  every stored control the test of line 108 (it has children and the second child is a
  \<^verbatim>\<open>GridBox\<close>) succeeds, and the \<^verbatim>\<open>elif\<close> branches for \<^verbatim>\<open>RadioButtons\<close> and
  \<^verbatim>\<open>SelectMultiple\<close> are never entered.
\<close>

record vbox =
  vb_html :: string
  vb_columns :: int
  vb_buttons :: "toggle_button list"
  vb_kind :: kind
  vb_opts :: "string list"

definition get_value :: "vbox \<Rightarrow> string list" where
  "get_value widget =
     (case vb_kind widget of
        Checkbox \<Rightarrow> get_value_checkbox (vb_buttons widget) (vb_opts widget)
      | Radio \<Rightarrow> get_value_radio (vb_buttons widget) (vb_opts widget))"

section \<open>The form controller\<close>

datatype error = ValueError string | KeyError string

datatype shown = Cleared | Initial_prompt | Loading_message | Download_form string "string list"

text \<open>
  The provider's collection. \<^verbatim>\<open>apply_constraints\<close> is an opaque call of the client
  library, taken as a function from the partial selection to the legal values.
\<close>

record collection =
  c_title :: string
  c_form :: "schema_entry list"
  apply_constraints :: "string list dict \<Rightarrow> string list dict"

text \<open>
  The controller's attributes, and the variables \<^verbatim>\<open>form_widgets\<close> and \<^verbatim>\<open>selection\<close>
  that the callbacks of the latest \<^verbatim>\<open>_build_form\<close> close over. \<open>dropdown\<close> is the value of
  \<^verbatim>\<open>collection_widget\<close>; \<open>selection_output\<close> holds the selection last rendered there.
\<close>

record form_state =
  collection_id :: "string option"
  request :: "string list dict"
  widget_defs :: "vbox dict"
  dropdown :: "string option"
  output_area :: shown
  selection_output :: "string list dict option"
  form_widgets :: "f_widget dict"
  selection :: "string list dict"

definition update_selection_state :: "form_state \<Rightarrow> form_state" where
  "update_selection_state st =
     st\<lparr>collection_id := dropdown st,
        request := map (\<lambda>(key, widget). (key, get_value widget))
                     (filter (\<lambda>(key, widget). get_value widget \<noteq> []) (widget_defs st))\<rparr>"

definition update_selection_display :: "form_state \<Rightarrow> form_state" where
  "update_selection_display st = st\<lparr>selection_output := Some (selection st)\<rparr>"

subsection \<open>Change propagation\<close>

definition read_widgets :: "vbox dict \<Rightarrow> string list dict \<Rightarrow> string list dict" where
  "read_widgets defs sel =
     foldl (\<lambda>acc kw. AList.update (fst kw) (get_value (snd kw)) acc) sel defs"

definition hide :: "toggle_button \<Rightarrow> toggle_button" where
  "hide tb = tb\<lparr>tb_display := Some ''none''\<rparr>"

definition unhide :: "toggle_button \<Rightarrow> toggle_button" where
  "unhide tb = tb\<lparr>tb_display := Some []\<rparr>"

text \<open>The second loop of the grid branch: \<^verbatim>\<open>zip\<close> stops at the shorter list.\<close>

fun show_legal :: "toggle_button list \<Rightarrow> string list \<Rightarrow> string list \<Rightarrow> toggle_button list" where
  "show_legal (tb # tbs) (opt # opts) vals =
     (if opt \<in> set vals then unhide tb else tb) # show_legal tbs opts vals"
| "show_legal tbs [] vals = tbs"
| "show_legal [] opts vals = []"

text \<open>
  One iteration of the loop over \<^verbatim>\<open>allowed_options.items()\<close>. \<^verbatim>\<open>form_widgets.get(key, {})\<close>
  is the option \<open>map_of fws key\<close>; reading \<^verbatim>\<open>f_widget["values"]\<close> from the empty
  dictionary raises \<^verbatim>\<open>KeyError\<close>, after the buttons have been hidden.
\<close>

definition allowed_item ::
  "f_widget dict \<Rightarrow> string \<times> string list \<Rightarrow> vbox dict \<Rightarrow> error option \<times> vbox dict" where
  "allowed_item fws kv defs =
     (let key = fst kv; vals = snd kv; f_widget = map_of fws key
      in case map_of defs key of
           None \<Rightarrow> (None, defs)
         | Some widget \<Rightarrow>
             (let hidden = map hide (vb_buttons widget)
              in case f_widget of
                   None \<Rightarrow>
                     (Some (KeyError ''values''),
                      AList.update key (widget\<lparr>vb_buttons := hidden\<rparr>) defs)
                 | Some fw \<Rightarrow>
                     (None,
                      AList.update key
                        (widget\<lparr>vb_buttons := show_legal hidden (fw_values fw) vals\<rparr>) defs)))"

fun allowed_loop ::
  "f_widget dict \<Rightarrow> string list dict \<Rightarrow> vbox dict \<Rightarrow> error option \<times> vbox dict" where
  "allowed_loop fws [] defs = (None, defs)"
| "allowed_loop fws (kv # rest) defs =
     (case allowed_item fws kv defs of
        (Some e, defs') \<Rightarrow> (Some e, defs')
      | (None, defs') \<Rightarrow> allowed_loop fws rest defs')"

definition on_change :: "collection \<Rightarrow> form_state \<Rightarrow> error option \<times> form_state" where
  "on_change c st =
     (let sel = read_widgets (widget_defs st) (selection st);
          allowed_options = apply_constraints c (filter (\<lambda>(k, v). v \<noteq> []) sel);
          (err, defs) = allowed_loop (form_widgets st) allowed_options (widget_defs st);
          st1 = st\<lparr>selection := sel, widget_defs := defs\<rparr>
      in case err of
           Some e \<Rightarrow> (Some e, st1)
         | None \<Rightarrow> (None, update_selection_display (update_selection_state st1)))"

subsection \<open>Assigning a button's value\<close>

text \<open>
  Assigning \<^verbatim>\<open>tb.value\<close> notifies the button's observer only when the value changes
  (the trait does not fire on an equal value). The observer of a checkbox button is
  \<^verbatim>\<open>on_change\<close>; that of a radio button is \<^verbatim>\<open>on_radio_click\<close>, which on a change to
  on switches every other button of the list off (their own observers see a change to
  off and do nothing) and then calls \<^verbatim>\<open>on_change\<close>. The result is the button list and
  whether \<^verbatim>\<open>on_change\<close> is called.
\<close>

definition others_off :: "nat \<Rightarrow> toggle_button list \<Rightarrow> toggle_button list" where
  "others_off i tb_list =
     map (\<lambda>(j, tb). if j \<noteq> i then tb\<lparr>tb_value := False\<rparr> else tb)
       (zip [0..<length tb_list] tb_list)"

definition assign_value ::
  "kind \<Rightarrow> nat \<Rightarrow> bool \<Rightarrow> toggle_button list \<Rightarrow> toggle_button list \<times> bool" where
  "assign_value k i new tb_list =
     (if tb_value (tb_list ! i) = new then (tb_list, False)
      else
        (let tb_list1 = tb_list[i := (tb_list ! i)\<lparr>tb_value := new\<rparr>]
         in case k of
              Checkbox \<Rightarrow> (tb_list1, True)
            | Radio \<Rightarrow> (if new then (others_off i tb_list1, True) else (tb_list1, False))))"

subsection \<open>Building the form\<close>

definition make_buttons :: "string dict \<Rightarrow> string list \<Rightarrow> toggle_button list" where
  "make_buttons labels options =
     map (\<lambda>opt. \<lparr>tb_value = False, tb_description = dict_get labels opt opt,
                  tb_display = None\<rparr>) options"

text \<open>
  The loop \<^verbatim>\<open>for tb, opt in zip(buttons, options): tb.value = opt in default_values\<close>,
  the buttons taken by position. It runs after the observers are registered and before the
  control is stored in \<^verbatim>\<open>widget_defs\<close>; an exception of \<^verbatim>\<open>on_change\<close> leaves the loop.
\<close>

fun set_defaults ::
  "collection \<Rightarrow> kind \<Rightarrow> string list \<Rightarrow> (nat \<times> string) list \<Rightarrow> toggle_button list \<Rightarrow>
   form_state \<Rightarrow> error option \<times> toggle_button list \<times> form_state" where
  "set_defaults c k default_values [] buttons st = (None, buttons, st)"
| "set_defaults c k default_values ((i, opt) # rest) buttons st =
     (case assign_value k i (opt \<in> set default_values) buttons of
        (buttons1, True) \<Rightarrow>
          (case on_change c st of
             (Some e, st1) \<Rightarrow> (Some e, buttons1, st1)
           | (None, st1) \<Rightarrow> set_defaults c k default_values rest buttons1 st1)
      | (buttons1, False) \<Rightarrow> set_defaults c k default_values rest buttons1 st)"

text \<open>
  The body of the loop over \<^verbatim>\<open>form_widgets.items()\<close>. For a radio field the assignment
  to \<^verbatim>\<open>f_widget["title"]\<close> changes the entry of \<^verbatim>\<open>form_widgets\<close> itself.
\<close>

definition build_field ::
  "collection \<Rightarrow> string \<times> f_widget \<Rightarrow> form_state \<Rightarrow> error option \<times> form_state" where
  "build_field c kf st =
     (let key = fst kf; f_widget = snd kf;
          widget_type = fw_type f_widget;
          options = fw_values f_widget;
          labels = fw_labels f_widget;
          columns = fw_columns f_widget;
          buttons = make_buttons labels options
      in if widget_type \<noteq> ''checkbox'' \<and> widget_type \<noteq> ''radio''
         then (Some (ValueError (''Unsupported widget type: '' @ widget_type)), st)
         else
           (let k = (if widget_type = ''checkbox'' then Checkbox else Radio);
                title = (if k = Radio then fw_title f_widget @ '' (select one)''
                         else fw_title f_widget);
                st1 = (if k = Radio
                       then st\<lparr>form_widgets :=
                              AList.update key (f_widget\<lparr>fw_title := title\<rparr>) (form_widgets st)\<rparr>
                       else st);
                default_values = get_or (fw_default f_widget) []
            in case set_defaults c k default_values (zip [0..<length buttons] options)
                      buttons st1 of
                 (Some e, buttons1, st2) \<Rightarrow> (Some e, st2)
               | (None, buttons1, st2) \<Rightarrow>
                   (None,
                    st2\<lparr>widget_defs :=
                          AList.update key
                            \<lparr>vb_html = ''<h3>'' @ title @ ''</h3>'', vb_columns = columns,
                             vb_buttons = buttons1, vb_kind = k, vb_opts = options\<rparr>
                            (widget_defs st2)\<rparr>)))"

fun build_loop ::
  "collection \<Rightarrow> f_widget dict \<Rightarrow> form_state \<Rightarrow> error option \<times> form_state" where
  "build_loop c [] st = (None, st)"
| "build_loop c (kf # rest) st =
     (case build_field c kf st of
        (Some e, st1) \<Rightarrow> (Some e, st1)
      | (None, st1) \<Rightarrow> build_loop c rest st1)"

text \<open>
  \<^verbatim>\<open>_build_form\<close>, given the collection that \<^verbatim>\<open>client.get_collection\<close> returned. The form
  is displayed only after the loop and the recomputation of the selection state.
\<close>

definition build_form :: "collection \<Rightarrow> form_state \<Rightarrow> error option \<times> form_state" where
  "build_form c st =
     (let st1 = st\<lparr>output_area := Loading_message, selection_output := None,
                    widget_defs := []\<rparr>;
          fws = form_json_to_widgets_dict (c_form c);
          st2 = st1\<lparr>form_widgets := fws, selection := []\<rparr>
      in case build_loop c fws st2 of
           (Some e, st3) \<Rightarrow> (Some e, st3)
         | (None, st3) \<Rightarrow>
             (None,
              (update_selection_state st3)
                \<lparr>output_area := Download_form (c_title c) (map fst (widget_defs st3))\<rparr>))"

text \<open>The controller after \<^verbatim>\<open>__init__\<close>: the dropdown has no value, the prompt is shown.\<close>

definition init :: form_state where
  "init = update_selection_state
     \<lparr>collection_id = None, request = [], widget_defs = [], dropdown = None,
      output_area = Initial_prompt, selection_output = None,
      form_widgets = [], selection = []\<rparr>"

definition on_collection_change ::
  "(string \<Rightarrow> collection) \<Rightarrow> string \<Rightarrow> form_state \<Rightarrow> error option \<times> form_state" where
  "on_collection_change get_collection new st =
     (if dropdown st \<noteq> Some new
      then build_form (get_collection new) (st\<lparr>dropdown := Some new\<rparr>)
      else (None, st))"

subsection \<open>Toggle events\<close>

text \<open>
  The user clicks the \<open>i\<close>-th button of the control \<open>key\<close>: the front end assigns the
  negated value. There is no event for a control or a button that does not exist. The
  hosting event loop goes on after a callback that raised, with the state as the callback
  left it.
\<close>

definition toggle :: "collection \<Rightarrow> string \<Rightarrow> nat \<Rightarrow> form_state \<Rightarrow> error option \<times> form_state" where
  "toggle c key i st =
     (case map_of (widget_defs st) key of
        None \<Rightarrow> (None, st)
      | Some widget \<Rightarrow>
          if length (vb_buttons widget) \<le> i then (None, st)
          else
            (case assign_value (vb_kind widget) i (\<not> tb_value (vb_buttons widget ! i))
                    (vb_buttons widget) of
               (buttons1, fire) \<Rightarrow>
                 (let st1 = st\<lparr>widget_defs :=
                               AList.update key (widget\<lparr>vb_buttons := buttons1\<rparr>)
                                 (widget_defs st)\<rparr>
                  in if fire then on_change c st1 else (None, st1))))"

fun run_events :: "collection \<Rightarrow> (string \<times> nat) list \<Rightarrow> form_state \<Rightarrow> form_state" where
  "run_events c [] st = st"
| "run_events c ((key, i) # evs) st = run_events c evs (snd (toggle c key i st))"

section \<open>Notions used in the statements\<close>

subsection \<open>Schema entries\<close>

text \<open>The name under which an entry is translated, and the test of line 249.\<close>

definition entry_name :: "schema_entry \<Rightarrow> string" where
  "entry_name w = get_or (w_name w) ''''"

definition ignored :: "schema_entry \<Rightarrow> bool" where
  "ignored w = (get_or (w_name w) '''' \<in> set ignore_widget_names \<or>
                get_or (w_type w) '''' \<in> set ignore_widget_types)"

subsection \<open>What a control contributes to the selection\<close>

text \<open>
  The extraction closures read the kind, the captured options and the button values only.
  \<open>core\<close> is that part of a control; \<open>core_value\<close> is the extracted value and
  \<open>selected\<close> the dictionary \<^verbatim>\<open>_update_selection_state\<close> computes, both from the cores.
\<close>

definition core :: "vbox \<Rightarrow> kind \<times> string list \<times> bool list" where
  "core w = (vb_kind w, vb_opts w, map tb_value (vb_buttons w))"

definition cores :: "vbox dict \<Rightarrow> (string \<times> kind \<times> string list \<times> bool list) list" where
  "cores defs = map (\<lambda>kw. (fst kw, core (snd kw))) defs"

definition core_value :: "kind \<times> string list \<times> bool list \<Rightarrow> string list" where
  "core_value kc =
     (case kc of
        (Checkbox, opts, vals) \<Rightarrow> map fst (filter snd (zip opts vals))
      | (Radio, opts, vals) \<Rightarrow>
          (case filter snd (zip opts vals) of [] \<Rightarrow> [] | p # _ \<Rightarrow> [fst p]))"

definition selected ::
  "(string \<times> kind \<times> string list \<times> bool list) list \<Rightarrow> string list dict" where
  "selected cs =
     map (\<lambda>kc. (fst kc, core_value (snd kc))) (filter (\<lambda>kc. core_value (snd kc) \<noteq> []) cs)"

definition button_values :: "form_state \<Rightarrow> string \<Rightarrow> bool list" where
  "button_values st key =
     (case map_of (widget_defs st) key of
        None \<Rightarrow> []
      | Some w \<Rightarrow> map tb_value (vb_buttons w))"

definition extracted :: "form_state \<Rightarrow> string \<Rightarrow> string list" where
  "extracted st key =
     (case map_of (widget_defs st) key of None \<Rightarrow> [] | Some w \<Rightarrow> get_value w)"

text \<open>The part of the controls that no click changes.\<close>

definition shapes :: "vbox dict \<Rightarrow> (string \<times> kind \<times> string list \<times> nat) list" where
  "shapes defs =
     map (\<lambda>kw. (fst kw, vb_kind (snd kw), vb_opts (snd kw), length (vb_buttons (snd kw)))) defs"

text \<open>The evaluator's response that \<^verbatim>\<open>on_change\<close> obtains in a state.\<close>

definition response :: "collection \<Rightarrow> form_state \<Rightarrow> string list dict" where
  "response c st =
     apply_constraints c
       (filter (\<lambda>(k, v). v \<noteq> []) (read_widgets (widget_defs st) (selection st)))"

subsection \<open>Invariants of the controller\<close>

text \<open>
  In a well-formed state every control has its translated field in \<^verbatim>\<open>form_widgets\<close>, with
  the same options and one button per option, and the keys of \<^verbatim>\<open>widget_defs\<close> are
  distinct. \<open>radio_exclusive\<close> says that a radio control has at most one button on;
  \<open>request_sound\<close> that the request holds non-empty values of rendered fields only.
\<close>

definition well_formed_core ::
  "f_widget dict \<Rightarrow> string \<times> kind \<times> string list \<times> bool list \<Rightarrow> bool" where
  "well_formed_core fws kc =
     (case map_of fws (fst kc) of
        None \<Rightarrow> False
      | Some fw \<Rightarrow> fst (snd (snd kc)) = fw_values fw \<and>
                   length (snd (snd (snd kc))) = length (fw_values fw))"

definition well_formed :: "form_state \<Rightarrow> bool" where
  "well_formed st =
     (list_all (well_formed_core (form_widgets st)) (cores (widget_defs st)) \<and>
      distinct (map fst (widget_defs st)))"

definition radio_exclusive :: "vbox dict \<Rightarrow> bool" where
  "radio_exclusive defs =
     (\<forall>kw \<in> set defs. vb_kind (snd kw) = Radio \<longrightarrow>
                       length (filter tb_value (vb_buttons (snd kw))) \<le> 1)"

definition stable :: "form_state \<Rightarrow> bool" where
  "stable st = (well_formed st \<and> radio_exclusive (widget_defs st))"

definition request_sound :: "form_state \<Rightarrow> bool" where
  "request_sound st =
     (\<forall>kv \<in> set (request st). snd kv \<noteq> [] \<and> fst kv \<in> fst ` set (widget_defs st))"

text \<open>What \<^verbatim>\<open>on_change\<close> leaves alone.\<close>

definition same_frame :: "form_state \<Rightarrow> form_state \<Rightarrow> bool" where
  "same_frame st st' =
     (cores (widget_defs st') = cores (widget_defs st) \<and>
      form_widgets st' = form_widgets st \<and>
      dropdown st' = dropdown st \<and>
      output_area st' = output_area st)"

subsection \<open>The outcome of the construction, field by field\<close>

text \<open>
  The test and the message of line 176, the closure chosen for a supported field, and the
  buttons of a field after the loop of lines 191-192, without the controller state that
  \<^const>\<open>set_defaults\<close> threads through \<^verbatim>\<open>on_change\<close>.
\<close>

definition unsupported :: "string \<times> f_widget \<Rightarrow> bool" where
  "unsupported kf = (fw_type (snd kf) \<noteq> ''checkbox'' \<and> fw_type (snd kf) \<noteq> ''radio'')"

definition unsupported_error :: "string \<times> f_widget \<Rightarrow> error" where
  "unsupported_error kf = ValueError (''Unsupported widget type: '' @ fw_type (snd kf))"

definition kind_of :: "f_widget \<Rightarrow> kind" where
  "kind_of fw = (if fw_type fw = ''checkbox'' then Checkbox else Radio)"

definition defaults_fold ::
  "kind \<Rightarrow> string list \<Rightarrow> (nat \<times> string) list \<Rightarrow> toggle_button list \<Rightarrow> toggle_button list" where
  "defaults_fold k default_values ios buttons =
     fold (\<lambda>io bs. fst (assign_value k (fst io) (snd io \<in> set default_values) bs)) ios buttons"

definition built_buttons :: "f_widget \<Rightarrow> toggle_button list" where
  "built_buttons fw =
     defaults_fold (kind_of fw) (get_or (fw_default fw) [])
       (zip [0..<length (fw_values fw)] (fw_values fw))
       (make_buttons (fw_labels fw) (fw_values fw))"

definition built_core :: "f_widget \<Rightarrow> kind \<times> string list \<times> bool list" where
  "built_core fw = (kind_of fw, fw_values fw, map tb_value (built_buttons fw))"

section \<open>Example inputs\<close>

text \<open>Two entries of one name, the first ignored by its raw type.\<close>

definition licence_entry :: schema_entry where
  "licence_entry = \<lparr>w_name = Some ''x'', w_type = Some ''LicenceWidget'',
                     w_label = None, w_details = None\<rparr>"

definition list_entry :: schema_entry where
  "list_entry = \<lparr>w_name = Some ''x'', w_type = Some ''StringListWidget'',
                  w_label = None, w_details = None\<rparr>"

text \<open>Grouped details whose single group repeats a value.\<close>

definition dup_group :: group where
  "dup_group = \<lparr>g_labels = None, g_values = Some [''x'', ''x''], g_columns = None\<rparr>"

definition dup_details :: details where
  "dup_details = \<lparr>d_labels = None, d_values = None, d_columns = None, d_default = None,
                   d_groups = Some [dup_group]\<rparr>"

text \<open>
  The checkbox field of the specification's scenario, and an entry of a raw type that is
  neither ignored nor mapped.
\<close>

definition variable_entry :: schema_entry where
  "variable_entry =
     \<lparr>w_name = Some ''variable'', w_type = Some ''StringListWidget'', w_label = None,
      w_details = Some \<lparr>d_labels = Some [(''a'', ''Alpha'')], d_values = Some [''a'', ''b''],
                        d_columns = None, d_default = None, d_groups = None\<rparr>\<rparr>"

definition date_entry :: schema_entry where
  "date_entry =
     \<lparr>w_name = Some ''date'', w_type = Some ''DateRangeWidget'', w_label = Some ''Date'',
      w_details = None\<rparr>"

definition only_a :: "string list dict \<Rightarrow> string list dict" where
  "only_a sel = [(''variable'', [''a'']), (''area'', [''x''])]"

definition variable_collection :: collection where
  "variable_collection =
     \<lparr>c_title = ''T'', c_form = [variable_entry], apply_constraints = only_a\<rparr>"

definition date_collection :: collection where
  "date_collection =
     \<lparr>c_title = ''T'', c_form = [variable_entry, date_entry], apply_constraints = only_a\<rparr>"

text \<open>
  A radio field without defaults, with an evaluator under which both options stay legal
  and one under which only the second does; and a radio field declaring two defaults.
\<close>

definition level_entry :: schema_entry where
  "level_entry =
     \<lparr>w_name = Some ''level'', w_type = Some ''StringChoiceWidget'', w_label = Some ''Level'',
      w_details = Some \<lparr>d_labels = None, d_values = Some [''a'', ''b''],
                        d_columns = None, d_default = None, d_groups = None\<rparr>\<rparr>"

definition only_b :: "string list dict \<Rightarrow> string list dict" where
  "only_b sel = [(''level'', [''b''])]"

definition all_legal :: "string list dict \<Rightarrow> string list dict" where
  "all_legal sel = [(''level'', [''a'', ''b''])]"

definition level_collection :: collection where
  "level_collection =
     \<lparr>c_title = ''T'', c_form = [level_entry], apply_constraints = all_legal\<rparr>"

definition narrowing_collection :: collection where
  "narrowing_collection =
     \<lparr>c_title = ''T'', c_form = [level_entry], apply_constraints = only_b\<rparr>"

definition fmt_entry :: schema_entry where
  "fmt_entry =
     \<lparr>w_name = Some ''fmt'', w_type = Some ''StringChoiceWidget'', w_label = Some ''Format'',
      w_details = Some \<lparr>d_labels = None, d_values = Some [''a'', ''b''],
                        d_columns = None, d_default = Some [''a'', ''b''], d_groups = None\<rparr>\<rparr>"

definition fmt_collection :: collection where
  "fmt_collection = \<lparr>c_title = ''T'', c_form = [fmt_entry], apply_constraints = only_b\<rparr>"

chapter \<open>Verification\<close>

section \<open>Schema translation\<close>

lemma form_loop_keys:
  "fst ` set (form_loop form out_widgets) =
     fst ` set out_widgets \<union> {entry_name w | w. w \<in> set form \<and> \<not> ignored w}"
proof (induction form arbitrary: out_widgets)
  case Nil
  show ?case by simp
next
  case (Cons w ws)
  show ?case
    unfolding form_loop.simps Let_def
    by (auto simp: Cons.IH dom_update entry_name_def ignored_def)
qed

lemma translated_keys:
  "fst ` set (form_json_to_widgets_dict form) =
     {entry_name w | w. w \<in> set form \<and> \<not> ignored w}"
  by (simp add: form_json_to_widgets_dict_def form_loop_keys)

lemma form_loop_append:
  "form_loop (xs @ ys) out_widgets = form_loop ys (form_loop xs out_widgets)"
  by (induction xs arbitrary: out_widgets) (simp_all add: Let_def)

lemma form_loop_ignored:
  "ignored w \<Longrightarrow> form_loop (w # ws) out_widgets = form_loop ws out_widgets"
  by (auto simp: ignored_def Let_def)

text \<open>
  Claim C9, as amended. A schema entry whose name is in the ignore-name list or whose raw
  type is in the ignore-type list is skipped: the translated mapping is the one obtained
  from the schema without that entry. The mapping contains the entry's name if and only if
  some other entry of the schema has the same name and is ignored neither by name nor by
  raw type; it never contains a name of the ignore-name list.
\<close>

theorem C9_ignored_entry_skipped:
  assumes "get_or (w_name w) '''' \<in> set ignore_widget_names \<or>
           get_or (w_type w) '''' \<in> set ignore_widget_types"
  shows "form_json_to_widgets_dict (pre @ w # post) = form_json_to_widgets_dict (pre @ post) \<and>
         (entry_name w \<in> fst ` set (form_json_to_widgets_dict (pre @ w # post)) \<longleftrightarrow>
            (\<exists>w' \<in> set (pre @ post). entry_name w' = entry_name w \<and> \<not> ignored w')) \<and>
         (get_or (w_name w) '''' \<in> set ignore_widget_names \<longrightarrow>
            entry_name w \<notin> fst ` set (form_json_to_widgets_dict (pre @ w # post)))"
proof -
  have i: "ignored w"
    using assms by (simp add: ignored_def)
  have "form_loop (pre @ w # post) [] = form_loop (w # post) (form_loop pre [])"
    by (rule form_loop_append)
  also have "\<dots> = form_loop post (form_loop pre [])"
    by (rule form_loop_ignored [OF i])
  also have "\<dots> = form_loop (pre @ post) []"
    by (rule form_loop_append [symmetric])
  finally have skip:
    "form_json_to_widgets_dict (pre @ w # post) = form_json_to_widgets_dict (pre @ post)"
    by (simp only: form_json_to_widgets_dict_def)
  have iff: "entry_name w \<in> fst ` set (form_json_to_widgets_dict (pre @ w # post)) \<longleftrightarrow>
            (\<exists>w' \<in> set (pre @ post). entry_name w' = entry_name w \<and> \<not> ignored w')"
    unfolding skip translated_keys by (auto intro: sym)
  have "get_or (w_name w) '''' \<in> set ignore_widget_names \<longrightarrow>
            entry_name w \<notin> fst ` set (form_json_to_widgets_dict (pre @ w # post))"
    unfolding iff by (auto simp: ignored_def entry_name_def)
  then show ?thesis
    using skip iff by blast
qed

theorem C9_ignored_entry_skipped_witness:
  "get_or (w_type licence_entry) '''' \<in> set ignore_widget_types \<and>
   form_json_to_widgets_dict ([list_entry\<lparr>w_name := Some ''y''\<rparr>] @ licence_entry # [list_entry]) =
     form_json_to_widgets_dict ([list_entry\<lparr>w_name := Some ''y''\<rparr>] @ [list_entry]) \<and>
   entry_name licence_entry \<in>
     fst ` set (form_json_to_widgets_dict
                  ([list_entry\<lparr>w_name := Some ''y''\<rparr>] @ licence_entry # [list_entry]))"
proof -
  have h: "get_or (w_name licence_entry) '''' \<in> set ignore_widget_names \<or>
           get_or (w_type licence_entry) '''' \<in> set ignore_widget_types"
    by (simp add: licence_entry_def get_or_def ignore_widget_types_def)
  have t: "get_or (w_type licence_entry) '''' \<in> set ignore_widget_types"
    by (simp add: licence_entry_def get_or_def ignore_widget_types_def)
  have e: "\<exists>w' \<in> set ([list_entry\<lparr>w_name := Some ''y''\<rparr>] @ [list_entry]).
             entry_name w' = entry_name licence_entry \<and> \<not> ignored w'"
    by (simp add: licence_entry_def list_entry_def entry_name_def ignored_def get_or_def
        ignore_widget_types_def ignore_widget_names_def)
  show ?thesis
    using t e C9_ignored_entry_skipped [OF h, of "[list_entry\<lparr>w_name := Some ''y''\<rparr>]" "[list_entry]"]
    by blast
qed

text \<open>
  Claim C9 as stated fails: the first entry has an ignored raw type, and its name is a key
  of the translated mapping, through the second entry.
\<close>

theorem C9_counterexample:
  "licence_entry \<in> set [licence_entry, list_entry] \<and>
   get_or (w_type licence_entry) '''' \<in> set ignore_widget_types \<and>
   get_or (w_name licence_entry) '''' \<in>
     fst ` set (form_json_to_widgets_dict [licence_entry, list_entry])"
  by (simp add: licence_entry_def list_entry_def get_or_def ignore_widget_types_def
      ignore_widget_names_def form_json_to_widgets_dict_def Let_def)

subsection \<open>Grouped details\<close>

lemma merge_groups_example:
  "merge_groups
     [\<lparr>g_labels = None, g_values = Some [''x'', ''y''], g_columns = Some 2\<rparr>,
      \<lparr>g_labels = None, g_values = Some [''y'', ''z''], g_columns = Some 3\<rparr>] ([], [], 1)
   = ([], [''x'', ''y'', ''z''], 3)"
  by (simp add: get_or_def dict_update_def)

lemma merge_groups_values_distinct:
  "distinct vals \<Longrightarrow> \<forall>g \<in> set gs. distinct (get_or (g_values g) []) \<Longrightarrow>
   distinct (fst (snd (merge_groups gs (labels, vals, columns))))"
proof (induction gs arbitrary: labels vals columns)
  case Nil
  then show ?case by simp
next
  case (Cons g gs)
  have "distinct (vals @ filter (\<lambda>v. v \<notin> set vals) (get_or (g_values g) []))"
    using Cons.prems by auto
  then show ?case using Cons.prems by (simp add: Cons.IH)
qed

lemma merge_groups_values_set:
  "set (fst (snd (merge_groups gs (labels, vals, columns)))) =
     set vals \<union> (\<Union>g \<in> set gs. set (get_or (g_values g) []))"
  by (induction gs arbitrary: labels vals columns) auto

lemma merge_groups_columns:
  "snd (snd (merge_groups gs (labels, vals, columns))) =
     fold (\<lambda>g m. max m (get_or (g_columns g) 1)) gs columns"
  by (induction gs arbitrary: labels vals columns) auto

text \<open>
  Claim C6 at a failing input. A value that occurs twice inside one group is kept twice:
  the filter of line 263 compares with the values of the earlier groups only.
\<close>

theorem C6_duplicate_within_group_kept:
  "flatten_details dup_details = ([], [''x'', ''x''], 1) \<and>
   \<not> distinct (fst (snd (flatten_details dup_details)))"
  by (simp add: flatten_details_def dup_details_def dup_group_def get_or_def dict_update_def)

section \<open>Change propagation\<close>

lemma update_present_keys:
  "map_of al k = Some v \<Longrightarrow> map fst (AList.update k v' al) = map fst al"
  by (auto simp: update_keys dest: map_of_SomeD intro: rev_image_eqI)

lemma allowed_item_keys: "map fst (snd (allowed_item fws kv defs)) = map fst defs"
  by (simp add: allowed_item_def Let_def update_present_keys split: option.splits)

lemma allowed_item_absent:
  "fst kv \<notin> fst ` set defs \<Longrightarrow> allowed_item fws kv defs = (None, defs)"
proof -
  assume "fst kv \<notin> fst ` set defs"
  then have "map_of defs (fst kv) = None"
    by (simp add: map_of_eq_None_iff)
  then show ?thesis
    by (simp add: allowed_item_def Let_def)
qed

lemma allowed_loop_keys: "map fst (snd (allowed_loop fws resp defs)) = map fst defs"
proof (induction resp arbitrary: defs)
  case Nil
  show ?case by simp
next
  case (Cons kv rest)
  obtain err defs' where step: "allowed_item fws kv defs = (err, defs')"
    by (cases "allowed_item fws kv defs")
  have k: "map fst defs' = map fst defs"
    using allowed_item_keys [of fws kv defs] step by simp
  show ?case
    using step k Cons.IH [of defs'] by (cases err) simp_all
qed

lemma allowed_loop_skip:
  assumes "key \<notin> fst ` set defs"
  shows "allowed_loop fws (pre @ (key, vals) # post) defs = allowed_loop fws (pre @ post) defs"
  using assms
proof (induction pre arbitrary: defs)
  case Nil
  then show ?case by (simp add: allowed_item_absent)
next
  case (Cons kv pre)
  obtain err defs' where step: "allowed_item fws kv defs = (err, defs')"
    by (cases "allowed_item fws kv defs")
  have "map fst defs' = map fst defs"
    using allowed_item_keys [of fws kv defs] step by simp
  then have "fst ` set defs' = fst ` set defs"
    by (metis set_map)
  then show ?case
    using step Cons by (cases err) simp_all
qed

text \<open>
  Claim C10. A name of the evaluator's response that is not a key of \<^verbatim>\<open>widget_defs\<close> is
  passed over: its iteration raises nothing and returns the controls as they were, and the
  whole loop gives the result it gives on the response without that item.
\<close>

theorem C10_unrendered_name_skipped:
  assumes "key \<notin> fst ` set defs"
  shows "allowed_item fws (key, vals) defs = (None, defs) \<and>
         allowed_loop fws (pre @ (key, vals) # post) defs = allowed_loop fws (pre @ post) defs"
  using assms by (simp add: allowed_item_absent allowed_loop_skip)

subsection \<open>The button values are left as they are\<close>

lemma get_value_checkbox_values:
  "get_value_checkbox tb_list opts = map fst (filter snd (zip opts (map tb_value tb_list)))"
  unfolding get_value_checkbox_def
  by (induction opts tb_list rule: list_induct2') auto

lemma first_on_values:
  "first_on (zip opts tb_list) =
     (case filter snd (zip opts (map tb_value tb_list)) of [] \<Rightarrow> [] | p # _ \<Rightarrow> [fst p])"
  by (induction opts tb_list rule: list_induct2') auto

lemma get_value_core: "core w = core w' \<Longrightarrow> get_value w = get_value w'"
  by (simp add: core_def get_value_def get_value_checkbox_values get_value_radio_def
      first_on_values split: kind.splits)

lemma hide_fields [simp]:
  "tb_value (hide tb) = tb_value tb" "tb_description (hide tb) = tb_description tb"
  "tb_display (hide tb) = Some ''none''"
  by (simp_all add: hide_def)

lemma unhide_fields [simp]:
  "tb_value (unhide tb) = tb_value tb" "tb_description (unhide tb) = tb_description tb"
  "tb_display (unhide tb) = Some []"
  by (simp_all add: unhide_def)

lemma show_legal_values [simp]: "map tb_value (show_legal tbs opts vals) = map tb_value tbs"
  by (induction tbs opts vals rule: show_legal.induct) simp_all

lemma cores_update_same:
  "map_of defs k = Some w \<Longrightarrow> core w' = core w \<Longrightarrow> cores (AList.update k w' defs) = cores defs"
  by (induction defs) (auto simp: cores_def)

lemma allowed_item_cores: "cores (snd (allowed_item fws kv defs)) = cores defs"
  by (auto simp: allowed_item_def Let_def core_def split: option.splits
      intro!: cores_update_same)

lemma allowed_loop_cores: "cores (snd (allowed_loop fws resp defs)) = cores defs"
proof (induction resp arbitrary: defs)
  case Nil
  show ?case by simp
next
  case (Cons kv rest)
  obtain err defs' where step: "allowed_item fws kv defs = (err, defs')"
    by (cases "allowed_item fws kv defs")
  have k: "cores defs' = cores defs"
    using allowed_item_cores [of fws kv defs] step by simp
  show ?case
    using step k Cons.IH [of defs'] by (cases err) simp_all
qed

lemma cores_keys: "map fst (cores defs) = map fst defs"
  by (simp add: cores_def comp_def)

lemma on_change_cores: "cores (widget_defs (snd (on_change c st))) = cores (widget_defs st)"
proof -
  obtain err defs where l: "allowed_loop (form_widgets st)
      (apply_constraints c (filter (\<lambda>(k, v). v \<noteq> []) (read_widgets (widget_defs st) (selection st))))
      (widget_defs st) = (err, defs)"
    by (cases "allowed_loop (form_widgets st)
      (apply_constraints c (filter (\<lambda>(k, v). v \<noteq> []) (read_widgets (widget_defs st) (selection st))))
      (widget_defs st)")
  have "cores defs = cores (widget_defs st)"
    using allowed_loop_cores [of "form_widgets st" _ "widget_defs st"] l by (metis snd_conv)
  then show ?thesis
    using l by (cases err) (simp_all add: on_change_def Let_def update_selection_state_def
        update_selection_display_def)
qed

lemma on_change_frame:
  "form_widgets (snd (on_change c st)) = form_widgets st"
  "dropdown (snd (on_change c st)) = dropdown st"
  "output_area (snd (on_change c st)) = output_area st"
  by (simp_all add: on_change_def Let_def update_selection_state_def
        update_selection_display_def split: prod.splits option.splits)

subsection \<open>No exception in a well-formed state\<close>

lemma on_change_loop:
  "fst (on_change c st) = fst (allowed_loop (form_widgets st) (response c st) (widget_defs st))"
  "widget_defs (snd (on_change c st)) =
     snd (allowed_loop (form_widgets st) (response c st) (widget_defs st))"
  by (simp_all add: on_change_def response_def Let_def update_selection_state_def
        update_selection_display_def split: prod.splits option.splits)

lemma well_formed_lookup:
  assumes "well_formed st" "map_of (widget_defs st) key = Some w"
  shows "\<exists>fw. map_of (form_widgets st) key = Some fw \<and> vb_opts w = fw_values fw \<and>
              length (vb_buttons w) = length (fw_values fw)"
proof -
  have "(key, w) \<in> set (widget_defs st)"
    using assms(2) by (rule map_of_SomeD)
  then have "(key, core w) \<in> set (cores (widget_defs st))"
    by (force simp: cores_def)
  then have "well_formed_core (form_widgets st) (key, core w)"
    using assms(1) by (simp add: well_formed_def list_all_iff)
  then show ?thesis
    by (simp add: well_formed_core_def core_def split: option.splits)
qed

lemma well_formed_keys: "well_formed st \<Longrightarrow> fst ` set (widget_defs st) \<subseteq> fst ` set (form_widgets st)"
proof
  fix k assume "well_formed st" "k \<in> fst ` set (widget_defs st)"
  then obtain w where "map_of (widget_defs st) k = Some w"
    by (metis map_of_eq_None_iff not_Some_eq)
  then obtain fw where "map_of (form_widgets st) k = Some fw"
    using well_formed_lookup [OF \<open>well_formed st\<close>] by blast
  then show "k \<in> fst ` set (form_widgets st)"
    by (metis map_of_eq_None_iff option.distinct(1))
qed

lemma allowed_item_no_error:
  "fst ` set defs \<subseteq> fst ` set fws \<Longrightarrow> fst (allowed_item fws kv defs) = None"
  by (auto simp: allowed_item_def Let_def map_of_eq_None_iff split: option.splits
      dest!: map_of_SomeD intro: rev_image_eqI)

lemma allowed_loop_no_error:
  "fst ` set defs \<subseteq> fst ` set fws \<Longrightarrow> fst (allowed_loop fws resp defs) = None"
proof (induction resp arbitrary: defs)
  case Nil
  show ?case by simp
next
  case (Cons kv rest)
  obtain err defs' where step: "allowed_item fws kv defs = (err, defs')"
    by (cases "allowed_item fws kv defs")
  have e: "err = None"
    using allowed_item_no_error [OF Cons.prems, of kv] step by simp
  have "map fst defs' = map fst defs"
    using allowed_item_keys [of fws kv defs] step by simp
  then have "fst ` set defs' = fst ` set defs"
    by (metis set_map)
  then show ?case
    using step e Cons by simp
qed

lemma on_change_no_error: "well_formed st \<Longrightarrow> fst (on_change c st) = None"
  by (simp add: on_change_loop allowed_loop_no_error well_formed_keys)

lemma on_change_well_formed: "well_formed st \<Longrightarrow> well_formed (snd (on_change c st))"
  using cores_keys [of "widget_defs (snd (on_change c st))"] cores_keys [of "widget_defs st"]
  by (simp add: well_formed_def on_change_cores on_change_frame)

subsection \<open>The effect on the control of a named field\<close>

lemma allowed_item_other:
  "fst kv \<noteq> key \<Longrightarrow> map_of (snd (allowed_item fws kv defs)) key = map_of defs key"
  by (simp add: allowed_item_def Let_def update_conv' split: option.splits)

lemma allowed_loop_other:
  "key \<notin> fst ` set resp \<Longrightarrow> map_of (snd (allowed_loop fws resp defs)) key = map_of defs key"
proof (induction resp arbitrary: defs)
  case Nil
  show ?case by simp
next
  case (Cons kv rest)
  obtain err defs' where step: "allowed_item fws kv defs = (err, defs')"
    by (cases "allowed_item fws kv defs")
  have "fst kv \<noteq> key"
    using Cons.prems by auto
  then have "map_of defs' key = map_of defs key"
    using allowed_item_other [of kv key fws defs] step by simp
  then show ?case
    using step Cons by (cases err) simp_all
qed

lemma allowed_loop_at:
  assumes "distinct (map fst resp)" "map_of resp key = Some vals"
    and "fst ` set defs \<subseteq> fst ` set fws"
    and "map_of defs key = Some w" "map_of fws key = Some fw"
  shows "map_of (snd (allowed_loop fws resp defs)) key =
           Some (w\<lparr>vb_buttons := show_legal (map hide (vb_buttons w)) (fw_values fw) vals\<rparr>)"
  using assms
proof (induction resp arbitrary: defs w)
  case Nil
  then show ?case by simp
next
  case (Cons kv rest)
  obtain err defs' where step: "allowed_item fws kv defs = (err, defs')"
    by (cases "allowed_item fws kv defs")
  have e: "err = None"
    using allowed_item_no_error [OF Cons.prems(3), of kv] step by simp
  have "map fst defs' = map fst defs"
    using allowed_item_keys [of fws kv defs] step by simp
  then have ks: "fst ` set defs' \<subseteq> fst ` set fws"
    using Cons.prems(3) by (metis set_map)
  show ?case
  proof (cases "fst kv = key")
    case True
    then have v: "snd kv = vals" using Cons.prems(2) by (cases kv) simp
    have notin: "key \<notin> fst ` set rest" using True Cons.prems(1) by auto
    have "defs' = AList.update key
        (w\<lparr>vb_buttons := show_legal (map hide (vb_buttons w)) (fw_values fw) vals\<rparr>) defs"
      using step True v Cons.prems(4,5) by (simp add: allowed_item_def Let_def)
    then have "map_of defs' key =
        Some (w\<lparr>vb_buttons := show_legal (map hide (vb_buttons w)) (fw_values fw) vals\<rparr>)"
      by (simp add: update_conv')
    then show ?thesis
      using step e allowed_loop_other [OF notin, of fws defs'] by simp
  next
    case False
    then have m: "map_of defs' key = Some w"
      using allowed_item_other [of kv key fws defs] step Cons.prems(4) by simp
    have r: "map_of rest key = Some vals"
      using False Cons.prems(2) by (cases kv) (simp split: if_splits)
    have d: "distinct (map fst rest)" using Cons.prems(1) by simp
    show ?thesis
      using step e Cons.IH [OF d r ks m Cons.prems(5)] by simp
  qed
qed

lemma show_legal_map2:
  "length tbs = length opts \<Longrightarrow>
   show_legal (map hide tbs) opts vals =
     map2 (\<lambda>tb opt. tb\<lparr>tb_display := Some (if opt \<in> set vals then [] else ''none'')\<rparr>) tbs opts"
  by (induction tbs opts rule: list_induct2) (simp_all add: hide_def unhide_def)

section \<open>Construction of the form\<close>

lemma same_frame_refl: "same_frame st st"
  by (simp add: same_frame_def)

lemma same_frame_trans: "same_frame st st1 \<Longrightarrow> same_frame st1 st2 \<Longrightarrow> same_frame st st2"
  by (simp add: same_frame_def)

lemma on_change_same_frame: "same_frame st (snd (on_change c st))"
  by (simp add: same_frame_def on_change_cores on_change_frame)

lemma set_defaults_result:
  "well_formed st \<Longrightarrow>
   \<exists>st'. set_defaults c k dv ios buttons st = (None, defaults_fold k dv ios buttons, st') \<and>
         well_formed st' \<and> same_frame st st'"
proof (induction ios arbitrary: buttons st)
  case Nil
  then show ?case by (simp add: defaults_fold_def same_frame_refl)
next
  case (Cons io ios)
  obtain i opt where io: "io = (i, opt)" by (cases io)
  obtain b1 fire where a: "assign_value k i (opt \<in> set dv) buttons = (b1, fire)"
    by (cases "assign_value k i (opt \<in> set dv) buttons")
  have fold: "defaults_fold k dv (io # ios) buttons = defaults_fold k dv ios b1"
    using a io by (simp add: defaults_fold_def)
  show ?case
  proof (cases fire)
    case False
    obtain st' where "set_defaults c k dv ios b1 st = (None, defaults_fold k dv ios b1, st')"
      "well_formed st'" "same_frame st st'"
      using Cons.IH [OF Cons.prems] by blast
    then show ?thesis
      using a io False fold by simp
  next
    case True
    obtain st1 where oc: "on_change c st = (None, st1)"
      using on_change_no_error [OF Cons.prems, of c] by (cases "on_change c st") simp
    have w1: "well_formed st1" and f1: "same_frame st st1"
      using on_change_well_formed [OF Cons.prems, of c] on_change_same_frame [of st c] oc by simp_all
    obtain st' where "set_defaults c k dv ios b1 st1 = (None, defaults_fold k dv ios b1, st')"
      "well_formed st'" "same_frame st1 st'"
      using Cons.IH [OF w1] by blast
    then show ?thesis
      using a io True fold oc f1 same_frame_trans by auto
  qed
qed

lemma others_off_length [simp]: "length (others_off i bs) = length bs"
  by (simp add: others_off_def)

lemma assign_value_length [simp]: "length (fst (assign_value k i v bs)) = length bs"
  by (simp add: assign_value_def Let_def split: kind.splits)

lemma defaults_fold_length [simp]: "length (defaults_fold k dv ios bs) = length bs"
  unfolding defaults_fold_def by (induction ios arbitrary: bs) simp_all

lemma make_buttons_length [simp]: "length (make_buttons labels options) = length options"
  by (simp add: make_buttons_def)

lemma built_buttons_length [simp]: "length (built_buttons fw) = length (fw_values fw)"
  by (simp add: built_buttons_def)

lemma update_absent: "k \<notin> fst ` set al \<Longrightarrow> AList.update k v al = al @ [(k, v)]"
  by (induction al) auto

lemma well_formed_core_title:
  "map_of fws key = Some fw \<Longrightarrow>
   well_formed_core (AList.update key (fw\<lparr>fw_title := t\<rparr>) fws) kc = well_formed_core fws kc"
  by (auto simp: well_formed_core_def update_conv' split: option.splits)

lemma build_field_unsupported:
  "unsupported (key, fw) \<Longrightarrow>
   build_field c (key, fw) st = (Some (unsupported_error (key, fw)), st)"
  by (simp add: build_field_def unsupported_def unsupported_error_def Let_def)

lemma build_field_supported:
  assumes w: "well_formed st" and s: "\<not> unsupported (key, fw)"
    and fresh: "key \<notin> fst ` set (widget_defs st)"
    and look: "map_of (form_widgets st) key = Some fw"
  shows "\<exists>st'. build_field c (key, fw) st = (None, st') \<and> well_formed st' \<and>
           cores (widget_defs st') = cores (widget_defs st) @ [(key, built_core fw)] \<and>
           dropdown st' = dropdown st \<and> output_area st' = output_area st \<and>
           (\<forall>k. k \<noteq> key \<longrightarrow> map_of (form_widgets st') k = map_of (form_widgets st) k)"
proof -
  define title where
    "title = (if kind_of fw = Radio then fw_title fw @ '' (select one)'' else fw_title fw)"
  define st1 where
    "st1 = (if kind_of fw = Radio
            then st\<lparr>form_widgets := AList.update key (fw\<lparr>fw_title := title\<rparr>) (form_widgets st)\<rparr>
            else st)"
  have defs1: "widget_defs st1 = widget_defs st"
    and dd1: "dropdown st1 = dropdown st" and out1: "output_area st1 = output_area st"
    by (simp_all add: st1_def)
  have fws1: "\<forall>k. k \<noteq> key \<longrightarrow> map_of (form_widgets st1) k = map_of (form_widgets st) k"
    by (simp add: st1_def update_conv')
  obtain fw1 where look1: "map_of (form_widgets st1) key = Some fw1"
    and vals1: "fw_values fw1 = fw_values fw"
    using look by (cases "kind_of fw = Radio") (simp_all add: st1_def update_conv')
  have core1: "\<And>kc. well_formed_core (form_widgets st1) kc = well_formed_core (form_widgets st) kc"
    using look by (simp add: st1_def well_formed_core_title)
  have w1: "well_formed st1"
    using w by (simp add: well_formed_def defs1 core1 cong: list.pred_cong)
  obtain st2 where sd: "set_defaults c (kind_of fw) (get_or (fw_default fw) [])
        (zip [0..<length (fw_values fw)] (fw_values fw))
        (make_buttons (fw_labels fw) (fw_values fw)) st1 = (None, built_buttons fw, st2)"
    and w2: "well_formed st2" and fr: "same_frame st1 st2"
    using set_defaults_result [OF w1] unfolding built_buttons_def by blast
  define widget where
    "widget = \<lparr>vb_html = ''<h3>'' @ title @ ''</h3>'', vb_columns = fw_columns fw,
               vb_buttons = built_buttons fw, vb_kind = kind_of fw, vb_opts = fw_values fw\<rparr>"
  define st' where "st' = st2\<lparr>widget_defs := AList.update key widget (widget_defs st2)\<rparr>"
  have res: "build_field c (key, fw) st = (None, st')"
  proof (cases "fw_type fw = ''checkbox''")
    case True
    then have "kind_of fw = Checkbox" "title = fw_title fw" "st1 = st"
      by (simp_all add: kind_of_def title_def st1_def)
    then show ?thesis
      using True sd by (simp add: build_field_def Let_def st'_def widget_def)
  next
    case False
    then have r: "fw_type fw = ''radio''"
      using s by (simp add: unsupported_def)
    have "kind_of fw = Radio" "title = fw_title fw @ '' (select one)''"
      "st1 = st\<lparr>form_widgets :=
          AList.update key (fw\<lparr>fw_title := fw_title fw @ '' (select one)''\<rparr>) (form_widgets st)\<rparr>"
      using False by (simp_all add: kind_of_def title_def st1_def)
    then show ?thesis
      using r sd by (simp add: build_field_def Let_def st'_def widget_def)
  qed
  have c2: "cores (widget_defs st2) = cores (widget_defs st)"
    using fr by (simp add: same_frame_def defs1)
  have k2: "map fst (widget_defs st2) = map fst (widget_defs st)"
    using c2 cores_keys by metis
  then have fresh2: "key \<notin> fst ` set (widget_defs st2)"
    using fresh by (metis set_map)
  have defs': "widget_defs st' = widget_defs st2 @ [(key, widget)]"
    by (simp add: st'_def update_absent [OF fresh2])
  have cw: "core widget = built_core fw"
    by (simp add: core_def widget_def built_core_def)
  have cores': "cores (widget_defs st') = cores (widget_defs st) @ [(key, built_core fw)]"
    using c2 cw by (simp add: defs' cores_def)
  have fws2: "form_widgets st' = form_widgets st1"
    using fr by (simp add: st'_def same_frame_def)
  have "well_formed_core (form_widgets st1) (key, built_core fw)"
    using look1 vals1 by (simp add: well_formed_core_def built_core_def)
  moreover have "list_all (well_formed_core (form_widgets st1)) (cores (widget_defs st))"
    using w1 by (simp add: well_formed_def defs1)
  moreover have "distinct (map fst (widget_defs st'))"
    using w fresh k2 by (simp add: defs' well_formed_def)
  ultimately have w': "well_formed st'"
    by (simp add: well_formed_def cores' fws2)
  have "dropdown st' = dropdown st" "output_area st' = output_area st"
    using fr by (simp_all add: st'_def same_frame_def dd1 out1)
  then show ?thesis
    using res w' cores' fws1 fws2 by simp
qed

lemma get_value_core_value: "get_value w = core_value (core w)"
  by (simp add: core_def core_value_def get_value_def get_value_checkbox_values
      get_value_radio_def first_on_values split: kind.splits)

lemma update_selection_state_request:
  "request (update_selection_state st) = selected (cores (widget_defs st))"
  by (simp add: update_selection_state_def selected_def cores_def get_value_core_value
      filter_map comp_def case_prod_unfold)

lemma update_selection_state_frame:
  "widget_defs (update_selection_state st) = widget_defs st"
  "form_widgets (update_selection_state st) = form_widgets st"
  "dropdown (update_selection_state st) = dropdown st"
  "output_area (update_selection_state st) = output_area st"
  by (simp_all add: update_selection_state_def)

lemma on_change_request:
  assumes "fst (on_change c st) = None"
  shows "request (snd (on_change c st)) = selected (cores (widget_defs st))"
proof -
  obtain err defs where l: "allowed_loop (form_widgets st)
      (apply_constraints c (filter (\<lambda>(k, v). v \<noteq> []) (read_widgets (widget_defs st) (selection st))))
      (widget_defs st) = (err, defs)"
    by (cases "allowed_loop (form_widgets st)
      (apply_constraints c (filter (\<lambda>(k, v). v \<noteq> []) (read_widgets (widget_defs st) (selection st))))
      (widget_defs st)")
  have e: "err = None"
    using assms l by (cases err) (simp_all add: on_change_def Let_def)
  have "cores defs = cores (widget_defs st)"
    using allowed_loop_cores [of "form_widgets st" _ "widget_defs st"] l by (metis snd_conv)
  moreover have "request (snd (on_change c st)) = selected (cores defs)"
    using l e by (simp add: on_change_def Let_def update_selection_display_def
        update_selection_state_request)
  ultimately show ?thesis by simp
qed

lemma build_loop_result:
  assumes "well_formed st" "distinct (map fst items)"
    and "\<forall>kf \<in> set items. map_of (form_widgets st) (fst kf) = Some (snd kf) \<and>
                            fst kf \<notin> fst ` set (widget_defs st)"
  shows "\<exists>st'. build_loop c items st = (map_option unsupported_error (find unsupported items), st') \<and>
           dropdown st' = dropdown st \<and> output_area st' = output_area st \<and>
           (find unsupported items = None \<longrightarrow>
              well_formed st' \<and>
              cores (widget_defs st') =
                cores (widget_defs st) @ map (\<lambda>kf. (fst kf, built_core (snd kf))) items)"
  using assms
proof (induction items arbitrary: st)
  case Nil
  then show ?case by simp
next
  case (Cons kf rest)
  obtain key fw where kf: "kf = (key, fw)" by (cases kf)
  show ?case
  proof (cases "unsupported kf")
    case True
    then show ?thesis
      using build_field_unsupported [of key fw c st] kf by simp
  next
    case False
    have look: "map_of (form_widgets st) key = Some fw"
      and fresh: "key \<notin> fst ` set (widget_defs st)"
      using Cons.prems(3) kf by simp_all
    obtain st1 where bf: "build_field c (key, fw) st = (None, st1)"
      and w1: "well_formed st1"
      and c1: "cores (widget_defs st1) = cores (widget_defs st) @ [(key, built_core fw)]"
      and d1: "dropdown st1 = dropdown st" and o1: "output_area st1 = output_area st"
      and f1: "\<forall>k. k \<noteq> key \<longrightarrow> map_of (form_widgets st1) k = map_of (form_widgets st) k"
      using build_field_supported [OF Cons.prems(1) _ fresh look, of c] False kf by blast
    have "map fst (cores (widget_defs st1)) = map fst (widget_defs st) @ [key]"
      by (simp add: c1 cores_keys)
    then have k1: "map fst (widget_defs st1) = map fst (widget_defs st) @ [key]"
      by (simp add: cores_keys)
    have ks1: "fst ` set (widget_defs st1) = insert key (fst ` set (widget_defs st))"
      using arg_cong [OF k1, of set] by simp
    have dr: "distinct (map fst rest)" and nk: "\<forall>kf' \<in> set rest. fst kf' \<noteq> key"
      using Cons.prems(2) kf by auto
    have pre: "\<forall>kf' \<in> set rest. map_of (form_widgets st1) (fst kf') = Some (snd kf') \<and>
                              fst kf' \<notin> fst ` set (widget_defs st1)"
      using Cons.prems(3) nk f1 ks1 by simp
    obtain st' where bl: "build_loop c rest st1 =
          (map_option unsupported_error (find unsupported rest), st')"
      and d': "dropdown st' = dropdown st1" and o': "output_area st' = output_area st1"
      and ok: "find unsupported rest = None \<longrightarrow>
              well_formed st' \<and>
              cores (widget_defs st') =
                cores (widget_defs st1) @ map (\<lambda>kf. (fst kf, built_core (snd kf))) rest"
      using Cons.IH [OF w1 dr pre] by (elim exE conjE) (rule that)
    show ?thesis
      using False kf bf bl d' o' ok d1 o1 c1 by simp
  qed
qed

lemma form_loop_distinct:
  "distinct (map fst out_widgets) \<Longrightarrow> distinct (map fst (form_loop form out_widgets))"
  by (induction form arbitrary: out_widgets) (simp_all add: Let_def distinct_update)

lemma translated_distinct: "distinct (map fst (form_json_to_widgets_dict form))"
  by (simp add: form_json_to_widgets_dict_def form_loop_distinct)

lemma build_form_result:
  "\<exists>st'. build_form c st =
           (map_option unsupported_error
              (find unsupported (form_json_to_widgets_dict (c_form c))), st') \<and>
         dropdown st' = dropdown st \<and>
         (find unsupported (form_json_to_widgets_dict (c_form c)) \<noteq> None \<longrightarrow>
            output_area st' = Loading_message) \<and>
         (find unsupported (form_json_to_widgets_dict (c_form c)) = None \<longrightarrow>
            well_formed st' \<and>
            cores (widget_defs st') =
              map (\<lambda>kf. (fst kf, built_core (snd kf))) (form_json_to_widgets_dict (c_form c)) \<and>
            request st' = selected (cores (widget_defs st')) \<and>
            output_area st' = Download_form (c_title c) (map fst (widget_defs st')))"
proof -
  define fws where "fws = form_json_to_widgets_dict (c_form c)"
  define st2 where
    "st2 = st\<lparr>output_area := Loading_message, selection_output := None, widget_defs := [],
              form_widgets := fws, selection := []\<rparr>"
  have w2: "well_formed st2"
    by (simp add: well_formed_def st2_def cores_def)
  have d: "distinct (map fst fws)"
    by (simp add: fws_def translated_distinct)
  have pre: "\<forall>kf \<in> set fws. map_of (form_widgets st2) (fst kf) = Some (snd kf) \<and>
                            fst kf \<notin> fst ` set (widget_defs st2)"
    using d by (simp add: st2_def)
  obtain st3 where bl: "build_loop c fws st2 =
          (map_option unsupported_error (find unsupported fws), st3)"
      and d3: "dropdown st3 = dropdown st2" and o3: "output_area st3 = output_area st2"
      and ok: "find unsupported fws = None \<longrightarrow>
              well_formed st3 \<and>
              cores (widget_defs st3) =
                cores (widget_defs st2) @ map (\<lambda>kf. (fst kf, built_core (snd kf))) fws"
    using build_loop_result [OF w2 d pre, of c] by (elim exE conjE) (rule that)
  have bf: "build_form c st =
      (case build_loop c fws st2 of
         (Some e, st3) \<Rightarrow> (Some e, st3)
       | (None, st3) \<Rightarrow>
           (None, (update_selection_state st3)
              \<lparr>output_area := Download_form (c_title c) (map fst (widget_defs st3))\<rparr>))"
    by (simp add: build_form_def Let_def fws_def st2_def)
  show ?thesis
  proof (cases "find unsupported fws")
    case None
    define st' where "st' = (update_selection_state st3)
              \<lparr>output_area := Download_form (c_title c) (map fst (widget_defs st3))\<rparr>"
    have "build_form c st = (None, st')"
      using bf bl None by (simp add: st'_def)
    moreover have "well_formed st'"
    proof -
      have "well_formed st3" using ok None by simp
      then show ?thesis
        by (simp add: st'_def well_formed_def update_selection_state_def)
    qed
    moreover have "cores (widget_defs st') = map (\<lambda>kf. (fst kf, built_core (snd kf))) fws"
      using ok None by (simp add: st'_def update_selection_state_def st2_def cores_def)
    moreover have "request st' = selected (cores (widget_defs st'))"
      using update_selection_state_request [of st3]
      by (simp add: st'_def update_selection_state_def)
    moreover have "output_area st' = Download_form (c_title c) (map fst (widget_defs st'))"
      by (simp add: st'_def update_selection_state_def)
    moreover have "dropdown st' = dropdown st"
      using d3 by (simp add: st'_def update_selection_state_def st2_def)
    ultimately show ?thesis
      using None by (simp add: fws_def)
  next
    case (Some kf)
    then show ?thesis
      using bf bl d3 o3 by (simp add: fws_def st2_def)
  qed
qed

section \<open>Evaluation of the examples\<close>

lemmas example_defs =
  variable_entry_def date_entry_def only_a_def variable_collection_def date_collection_def

lemmas model_defs =
  build_form_def build_loop.simps build_field_def set_defaults.simps assign_value_def
  others_off_def make_buttons_def on_change_def allowed_loop.simps allowed_item_def
  read_widgets_def update_selection_state_def update_selection_display_def
  get_value_def get_value_checkbox_def get_value_radio_def hide_def unhide_def
  form_json_to_widgets_dict_def translate_entry_def flatten_details_def
  ignore_widget_names_def ignore_widget_types_def widget_map_def dict_get_def get_or_def
  no_details_def init_def toggle_def dict_update_def Let_def

lemma variable_built:
  "build_form variable_collection init =
     (None,
      \<lparr>collection_id = None, request = [],
       widget_defs =
         [(''variable'',
           \<lparr>vb_html = ''<h3></h3>'', vb_columns = 1,
            vb_buttons =
              [\<lparr>tb_value = False, tb_description = ''Alpha'', tb_display = None\<rparr>,
               \<lparr>tb_value = False, tb_description = ''b'', tb_display = None\<rparr>],
            vb_kind = Checkbox, vb_opts = [''a'', ''b'']\<rparr>)],
       dropdown = None, output_area = Download_form ''T'' [''variable''],
       selection_output = None,
       form_widgets =
         [(''variable'',
           \<lparr>fw_label = None, fw_labels = [(''a'', ''Alpha'')],
            fw_values = [''a'', ''b''], fw_title = [], fw_type = ''checkbox'',
            fw_columns = 1, fw_default = None\<rparr>)],
       selection = []\<rparr>)"
  by (simp add: example_defs model_defs)

section \<open>Unsupported kinds\<close>

text \<open>
  Claim C5. When some translated field has a kind other than \<^verbatim>\<open>"checkbox"\<close> and
  \<^verbatim>\<open>"radio"\<close>, \<^verbatim>\<open>_build_form\<close> raises \<^verbatim>\<open>ValueError\<close> for an unsupported kind, and the
  output area still holds the loading message: the form is displayed only after the loop.
\<close>

theorem C5_unsupported_kind_fails:
  assumes "kf \<in> set (form_json_to_widgets_dict (c_form c))"
    and "fw_type (snd kf) \<noteq> ''checkbox''" and "fw_type (snd kf) \<noteq> ''radio''"
  shows "\<exists>t. fst (build_form c st) = Some (ValueError (''Unsupported widget type: '' @ t)) \<and>
             t \<noteq> ''checkbox'' \<and> t \<noteq> ''radio'' \<and>
             output_area (snd (build_form c st)) = Loading_message"
proof -
  have "unsupported kf"
    using assms(2,3) by (simp add: unsupported_def)
  then have "find unsupported (form_json_to_widgets_dict (c_form c)) \<noteq> None"
    using assms(1) by (cases kf) (auto simp: find_None_iff)
  then obtain kf' where f: "find unsupported (form_json_to_widgets_dict (c_form c)) = Some kf'"
    by blast
  then have u: "unsupported kf'"
    by (auto simp: find_Some_iff)
  obtain st' where "build_form c st = (Some (unsupported_error kf'), st')"
    "output_area st' = Loading_message"
    using build_form_result [of c st] f by auto
  then show ?thesis
    using u by (auto simp: unsupported_def unsupported_error_def)
qed

theorem C5_unsupported_kind_fails_witness:
  "(''date'', translate_entry date_entry) \<in> set (form_json_to_widgets_dict (c_form date_collection)) \<and>
   (\<exists>t. fst (build_form date_collection init) =
           Some (ValueError (''Unsupported widget type: '' @ t)) \<and>
        t \<noteq> ''checkbox'' \<and> t \<noteq> ''radio'' \<and>
        output_area (snd (build_form date_collection init)) = Loading_message)"
proof -
  have m: "(''date'', translate_entry date_entry) \<in>
             set (form_json_to_widgets_dict (c_form date_collection))"
    by (simp add: example_defs form_json_to_widgets_dict_def ignore_widget_names_def
        ignore_widget_types_def get_or_def Let_def)
  have t: "fw_type (snd (''date'', translate_entry date_entry)) = ''DateRangeWidget''"
    by (simp add: example_defs translate_entry_def widget_map_def dict_get_def get_or_def
        flatten_details_def no_details_def Let_def)
  show ?thesis
    using m C5_unsupported_kind_fails [OF m, of init] t by simp
qed

section \<open>Visibility of the buttons after a response\<close>

text \<open>
  Claim C4. When the evaluator's response names a rendered checkbox field, \<^verbatim>\<open>on_change\<close>
  raises nothing and leaves at that key the same control with the same buttons, each
  changed in its \<^verbatim>\<open>display\<close> attribute only: shown when its option is legal, hidden
  otherwise.
\<close>

theorem C4_checkbox_visibility:
  assumes "well_formed st"
    and "distinct (map fst (response c st))"
    and "map_of (response c st) key = Some vals"
    and "map_of (widget_defs st) key = Some w"
    and "vb_kind w = Checkbox"
  shows "fst (on_change c st) = None \<and>
         map_of (widget_defs (snd (on_change c st))) key =
           Some (w\<lparr>vb_buttons :=
                     map2 (\<lambda>tb opt. tb\<lparr>tb_display :=
                                         Some (if opt \<in> set vals then [] else ''none'')\<rparr>)
                       (vb_buttons w) (vb_opts w)\<rparr>)"
proof -
  obtain fw where fw: "map_of (form_widgets st) key = Some fw"
    and opts: "vb_opts w = fw_values fw"
    and len: "length (vb_buttons w) = length (fw_values fw)"
    using well_formed_lookup [OF assms(1,4)] by blast
  have "map_of (widget_defs (snd (on_change c st))) key =
          Some (w\<lparr>vb_buttons := show_legal (map hide (vb_buttons w)) (fw_values fw) vals\<rparr>)"
    using allowed_loop_at [OF assms(2,3) well_formed_keys [OF assms(1)] assms(4) fw]
    by (simp add: on_change_loop)
  then show ?thesis
    using on_change_no_error [OF assms(1), of c] show_legal_map2 [OF len, of vals] opts
    by simp
qed

theorem C4_checkbox_visibility_witness:
  "well_formed (snd (build_form variable_collection init)) \<and>
   distinct (map fst (response variable_collection (snd (build_form variable_collection init)))) \<and>
   map_of (response variable_collection (snd (build_form variable_collection init))) ''variable''
     = Some [''a''] \<and>
   fst (on_change variable_collection (snd (build_form variable_collection init))) = None \<and>
   map_of (widget_defs (snd (on_change variable_collection
                               (snd (build_form variable_collection init))))) ''variable'' =
     Some \<lparr>vb_html = ''<h3></h3>'', vb_columns = 1,
           vb_buttons =
             [\<lparr>tb_value = False, tb_description = ''Alpha'', tb_display = Some []\<rparr>,
              \<lparr>tb_value = False, tb_description = ''b'', tb_display = Some ''none''\<rparr>],
           vb_kind = Checkbox, vb_opts = [''a'', ''b'']\<rparr>"
proof -
  let ?st = "snd (build_form variable_collection init)"
  have r: "response variable_collection ?st = [(''variable'', [''a'']), (''area'', [''x''])]"
    by (simp add: response_def variable_collection_def only_a_def)
  have h1: "well_formed ?st"
    by (simp add: variable_built well_formed_def well_formed_core_def cores_def core_def)
  have h2: "distinct (map fst (response variable_collection ?st))"
    by (simp add: r)
  have h3: "map_of (response variable_collection ?st) ''variable'' = Some [''a'']"
    by (simp add: r)
  have h4: "map_of (widget_defs ?st) ''variable'' =
      Some \<lparr>vb_html = ''<h3></h3>'', vb_columns = 1,
            vb_buttons =
              [\<lparr>tb_value = False, tb_description = ''Alpha'', tb_display = None\<rparr>,
               \<lparr>tb_value = False, tb_description = ''b'', tb_display = None\<rparr>],
            vb_kind = Checkbox, vb_opts = [''a'', ''b'']\<rparr>"
    by (simp add: variable_built)
  show ?thesis
    using h1 h2 h3 C4_checkbox_visibility [OF h1 h2 h3 h4] by simp
qed

theorem C10_unrendered_name_skipped_witness:
  "''area'' \<notin> fst ` set (widget_defs (snd (build_form variable_collection init))) \<and>
   allowed_item (form_widgets (snd (build_form variable_collection init))) (''area'', [''x''])
     (widget_defs (snd (build_form variable_collection init))) =
     (None, widget_defs (snd (build_form variable_collection init))) \<and>
   allowed_loop (form_widgets (snd (build_form variable_collection init)))
     ([(''variable'', [''a''])] @ (''area'', [''x'']) # [])
     (widget_defs (snd (build_form variable_collection init))) =
   allowed_loop (form_widgets (snd (build_form variable_collection init)))
     ([(''variable'', [''a''])] @ [])
     (widget_defs (snd (build_form variable_collection init)))"
proof -
  have h: "''area'' \<notin> fst ` set (widget_defs (snd (build_form variable_collection init)))"
    by (simp add: variable_built)
  show ?thesis
    using h C10_unrendered_name_skipped [OF h] by blast
qed

section \<open>Extraction from a checkbox field\<close>

lemma get_value_checkbox_Cons:
  "get_value_checkbox (tb # tbs) (opt # opts) =
     (if tb_value tb then [opt] else []) @ get_value_checkbox tbs opts"
  by (simp add: get_value_checkbox_def)

lemma get_value_checkbox_nths:
  "get_value_checkbox tb_list opts =
     nths opts {i. i < length tb_list \<and> tb_value (tb_list ! i)}"
proof (induction opts arbitrary: tb_list)
  case Nil
  show ?case by (simp add: get_value_checkbox_def)
next
  case (Cons opt opts)
  show ?case
  proof (cases tb_list)
    case Nil
    then show ?thesis by (simp add: get_value_checkbox_def)
  next
    case (Cons tb tbs)
    then show ?thesis
      by (simp add: get_value_checkbox_Cons nths_Cons Cons.IH)
  qed
qed

lemmas more_example_defs =
  level_entry_def only_b_def all_legal_def level_collection_def narrowing_collection_def
  fmt_entry_def fmt_collection_def

lemma variable_scenario:
  "request (snd (build_form (variable_collection\<lparr>apply_constraints := ac\<rparr>) init)) = [] \<and>
   request (snd (toggle (variable_collection\<lparr>apply_constraints := ac\<rparr>) ''variable'' 0
                   (snd (build_form (variable_collection\<lparr>apply_constraints := ac\<rparr>) init))))
     = [(''variable'', [''a''])]"
proof -
  let ?c = "variable_collection\<lparr>apply_constraints := ac\<rparr>"
  define st1 where "st1 =
      \<lparr>collection_id = None, request = [],
       widget_defs =
         [(''variable'',
           \<lparr>vb_html = ''<h3></h3>'', vb_columns = 1,
            vb_buttons =
              [\<lparr>tb_value = True, tb_description = ''Alpha'', tb_display = None\<rparr>,
               \<lparr>tb_value = False, tb_description = ''b'', tb_display = None\<rparr>],
            vb_kind = Checkbox, vb_opts = [''a'', ''b'']\<rparr>)],
       dropdown = None, output_area = Download_form ''T'' [''variable''],
       selection_output = None,
       form_widgets =
         [(''variable'',
           \<lparr>fw_label = None, fw_labels = [(''a'', ''Alpha'')],
            fw_values = [''a'', ''b''], fw_title = [], fw_type = ''checkbox'',
            fw_columns = 1, fw_default = None\<rparr>)],
       selection = []\<rparr>"
  have b: "build_form ?c init =
      (None, st1\<lparr>widget_defs :=
         [(''variable'',
           \<lparr>vb_html = ''<h3></h3>'', vb_columns = 1,
            vb_buttons =
              [\<lparr>tb_value = False, tb_description = ''Alpha'', tb_display = None\<rparr>,
               \<lparr>tb_value = False, tb_description = ''b'', tb_display = None\<rparr>],
            vb_kind = Checkbox, vb_opts = [''a'', ''b'']\<rparr>)]\<rparr>)"
    by (simp add: example_defs model_defs st1_def)
  have r0: "request (snd (build_form ?c init)) = []"
    by (simp add: b st1_def)
  have t: "toggle ?c ''variable'' 0 (snd (build_form ?c init)) = on_change ?c st1"
    by (simp add: b toggle_def assign_value_def st1_def)
  have w: "well_formed st1"
    by (simp add: st1_def well_formed_def well_formed_core_def cores_def core_def)
  have "request (snd (on_change ?c st1)) = selected (cores (widget_defs st1))"
    using on_change_request [OF on_change_no_error [OF w]] .
  also have "\<dots> = [(''variable'', [''a''])]"
    by (simp add: st1_def selected_def cores_def core_def core_value_def)
  finally show ?thesis
    using r0 t by simp
qed

section \<open>The buttons after the defaults are assigned\<close>

lemma others_off_nth:
  "j < length bs \<Longrightarrow>
   tb_value (others_off i bs ! j) = (if j \<noteq> i then False else tb_value (bs ! j))"
  by (simp add: others_off_def)

lemma assign_value_nth:
  assumes "i < length bs" "j < length bs"
  shows "tb_value (fst (assign_value k i v bs) ! j) =
           (if j = i then v
            else if k = Radio \<and> v \<and> \<not> tb_value (bs ! i) then False
            else tb_value (bs ! j))"
  using assms
  by (cases k) (auto simp: assign_value_def Let_def others_off_nth)

lemma defaults_fold_snoc:
  "defaults_fold k dv (ios @ [(i, opt)]) bs =
     fst (assign_value k i (opt \<in> set dv) (defaults_fold k dv ios bs))"
  by (simp add: defaults_fold_def)

lemma zip_upt_take_Suc:
  "m < length opts \<Longrightarrow>
   zip [0..<Suc m] (take (Suc m) opts) = zip [0..<m] (take m opts) @ [(m, opts ! m)]"
  by (simp add: take_Suc_conv_app_nth)

lemma defaults_fold_prefix:
  assumes "length bs = length opts" "\<forall>b \<in> set bs. \<not> tb_value b"
  shows "m \<le> length opts \<Longrightarrow> i < length opts \<Longrightarrow>
         tb_value (defaults_fold k dv (zip [0..<m] (take m opts)) bs ! i) =
           (i < m \<and> opts ! i \<in> set dv \<and>
            (k = Radio \<longrightarrow> (\<forall>j. i < j \<and> j < m \<longrightarrow> opts ! j \<notin> set dv)))"
proof (induction m arbitrary: i)
  case 0
  then show ?case using assms by (simp add: defaults_fold_def)
next
  case (Suc m)
  let ?prev = "defaults_fold k dv (zip [0..<m] (take m opts)) bs"
  have m: "m < length opts" using Suc.prems by simp
  have len: "length ?prev = length opts" using assms(1) by simp
  have IH: "\<And>i. i < length opts \<Longrightarrow> tb_value (?prev ! i) =
           (i < m \<and> opts ! i \<in> set dv \<and>
            (k = Radio \<longrightarrow> (\<forall>j. i < j \<and> j < m \<longrightarrow> opts ! j \<notin> set dv)))"
    using Suc.IH m by simp
  have old: "\<not> tb_value (?prev ! m)" using IH [OF m] by simp
  have step: "defaults_fold k dv (zip [0..<Suc m] (take (Suc m) opts)) bs =
                fst (assign_value k m (opts ! m \<in> set dv) ?prev)"
    by (simp only: zip_upt_take_Suc [OF m] defaults_fold_snoc)
  have "tb_value (fst (assign_value k m (opts ! m \<in> set dv) ?prev) ! i) =
           (if i = m then opts ! m \<in> set dv
            else if k = Radio \<and> opts ! m \<in> set dv \<and> \<not> tb_value (?prev ! m) then False
            else tb_value (?prev ! i))"
    using assign_value_nth [of m ?prev i k] m Suc.prems(2) len by simp
  then show ?case
    unfolding step using old IH [OF Suc.prems(2)]
    by (auto simp: less_Suc_eq)
qed

lemma make_buttons_off: "\<forall>b \<in> set (make_buttons labels options). \<not> tb_value b"
  by (auto simp: make_buttons_def)

lemma built_buttons_nth:
  assumes "i < length (fw_values fw)"
  shows "tb_value (built_buttons fw ! i) =
           (fw_values fw ! i \<in> set (get_or (fw_default fw) []) \<and>
            (kind_of fw = Radio \<longrightarrow>
               (\<forall>j. i < j \<and> j < length (fw_values fw) \<longrightarrow>
                    fw_values fw ! j \<notin> set (get_or (fw_default fw) []))))"
  using defaults_fold_prefix [of "make_buttons (fw_labels fw) (fw_values fw)" "fw_values fw"
      "length (fw_values fw)" i "kind_of fw" "get_or (fw_default fw) []"] assms
  by (simp add: built_buttons_def make_buttons_off)

lemma cores_lookup: "map_of (cores defs) k = map_option core (map_of defs k)"
  by (induction defs) (auto simp: cores_def)

lemma built_cores_lookup:
  assumes "distinct (map fst fws)" "map_of fws key = Some fw"
  shows "map_of (map (\<lambda>kf. (fst kf, built_core (snd kf))) fws) key = Some (built_core fw)"
  using assms by (induction fws) (auto split: if_splits)

lemma find_unsupported_None:
  "find unsupported fws = None \<Longrightarrow> map_of fws key = Some fw \<Longrightarrow> \<not> unsupported (key, fw)"
  by (auto simp: find_None_iff dest: map_of_SomeD)

lemma build_form_success:
  assumes "fst (build_form c st) = None"
  shows "find unsupported (form_json_to_widgets_dict (c_form c)) = None"
    and "well_formed (snd (build_form c st))"
    and "cores (widget_defs (snd (build_form c st))) =
           map (\<lambda>kf. (fst kf, built_core (snd kf))) (form_json_to_widgets_dict (c_form c))"
proof -
  obtain st' where r: "build_form c st =
           (map_option unsupported_error
              (find unsupported (form_json_to_widgets_dict (c_form c))), st')"
    and ok: "find unsupported (form_json_to_widgets_dict (c_form c)) = None \<longrightarrow>
            well_formed st' \<and>
            cores (widget_defs st') =
              map (\<lambda>kf. (fst kf, built_core (snd kf))) (form_json_to_widgets_dict (c_form c)) \<and>
            request st' = selected (cores (widget_defs st')) \<and>
            output_area st' = Download_form (c_title c) (map fst (widget_defs st'))"
    using build_form_result [of c st] by (elim exE conjE) (rule that)
  show f: "find unsupported (form_json_to_widgets_dict (c_form c)) = None"
    using assms r by (cases "find unsupported (form_json_to_widgets_dict (c_form c))") simp_all
  show "well_formed (snd (build_form c st))"
    using ok f r by simp
  show "cores (widget_defs (snd (build_form c st))) =
           map (\<lambda>kf. (fst kf, built_core (snd kf))) (form_json_to_widgets_dict (c_form c))"
    using ok f r by simp
qed

text \<open>
  Claim C2, as amended. After a construction that succeeds, every translated field has a
  control with one button per option value. The button of an option is on if and only if
  the option is in the field's default list and, for a radio field, no later option of the
  list is a default: each assignment of a default through \<^verbatim>\<open>on_radio_click\<close> switches
  the buttons set before it off.
\<close>

theorem C2_default_state:
  assumes "fst (build_form c st) = None"
    and "map_of (form_json_to_widgets_dict (c_form c)) key = Some fw"
  shows "\<exists>w. map_of (widget_defs (snd (build_form c st))) key = Some w \<and>
             vb_opts w = fw_values fw \<and>
             length (vb_buttons w) = length (fw_values fw) \<and>
             (\<forall>i < length (fw_values fw).
                tb_value (vb_buttons w ! i) =
                  (fw_values fw ! i \<in> set (get_or (fw_default fw) []) \<and>
                   (fw_type fw = ''radio'' \<longrightarrow>
                      (\<forall>j. i < j \<and> j < length (fw_values fw) \<longrightarrow>
                           fw_values fw ! j \<notin> set (get_or (fw_default fw) [])))))"
proof -
  let ?st = "snd (build_form c st)"
  let ?fws = "form_json_to_widgets_dict (c_form c)"
  have "map_of (cores (widget_defs ?st)) key = Some (built_core fw)"
    using build_form_success(3) [OF assms(1)] built_cores_lookup [OF translated_distinct assms(2)]
    by simp
  then obtain w where w: "map_of (widget_defs ?st) key = Some w" and c: "core w = built_core fw"
    by (auto simp: cores_lookup)
  have opts: "vb_opts w = fw_values fw"
    and vals: "map tb_value (vb_buttons w) = map tb_value (built_buttons fw)"
    using c by (simp_all add: core_def built_core_def)
  have len: "length (vb_buttons w) = length (fw_values fw)"
    using arg_cong [OF vals, of length] by simp
  have "\<not> unsupported (key, fw)"
    using find_unsupported_None [OF build_form_success(1) [OF assms(1)] assms(2)] .
  then have k: "kind_of fw = Radio \<longleftrightarrow> fw_type fw = ''radio''"
    by (auto simp: unsupported_def kind_of_def)
  have "\<forall>i < length (fw_values fw).
          tb_value (vb_buttons w ! i) = tb_value (built_buttons fw ! i)"
  proof (intro allI impI)
    fix i assume i: "i < length (fw_values fw)"
    have "map tb_value (vb_buttons w) ! i = map tb_value (built_buttons fw) ! i"
      using vals by simp
    then show "tb_value (vb_buttons w ! i) = tb_value (built_buttons fw ! i)"
      using i len by simp
  qed
  then show ?thesis
    using w opts len k built_buttons_nth [of _ fw] by auto
qed

lemma fmt_built:
  "build_form fmt_collection init =
     (None,
      \<lparr>collection_id = None, request = [(''fmt'', [''b''])],
       widget_defs =
         [(''fmt'',
           \<lparr>vb_html = ''<h3>Format (select one)</h3>'', vb_columns = 1,
            vb_buttons =
              [\<lparr>tb_value = False, tb_description = ''a'', tb_display = None\<rparr>,
               \<lparr>tb_value = True, tb_description = ''b'', tb_display = None\<rparr>],
            vb_kind = Radio, vb_opts = [''a'', ''b'']\<rparr>)],
       dropdown = None, output_area = Download_form ''T'' [''fmt''],
       selection_output = Some [],
       form_widgets =
         [(''fmt'',
           \<lparr>fw_label = Some ''Format'', fw_labels = [],
            fw_values = [''a'', ''b''], fw_title = ''Format (select one)'',
            fw_type = ''radio'', fw_columns = 1, fw_default = Some [''a'', ''b'']\<rparr>)],
       selection = []\<rparr>)"
  by (simp add: more_example_defs model_defs)

lemma fmt_translated:
  "form_json_to_widgets_dict (c_form fmt_collection) =
     [(''fmt'',
       \<lparr>fw_label = Some ''Format'', fw_labels = [],
        fw_values = [''a'', ''b''], fw_title = ''Format'',
        fw_type = ''radio'', fw_columns = 1, fw_default = Some [''a'', ''b'']\<rparr>)]"
  by (simp add: more_example_defs model_defs)

text \<open>
  Claim C2 as stated fails for a radio field with two defaults: option a is in the default
  list and its button is off after construction.
\<close>

theorem C2_counterexample:
  "fst (build_form fmt_collection init) = None \<and>
   map_of (form_json_to_widgets_dict (c_form fmt_collection)) ''fmt'' =
     Some \<lparr>fw_label = Some ''Format'', fw_labels = [],
           fw_values = [''a'', ''b''], fw_title = ''Format'',
           fw_type = ''radio'', fw_columns = 1, fw_default = Some [''a'', ''b'']\<rparr> \<and>
   button_values (snd (build_form fmt_collection init)) ''fmt'' = [False, True]"
  by (simp add: fmt_built fmt_translated button_values_def)

theorem C2_default_state_witness:
  "fst (build_form fmt_collection init) = None \<and>
   map_of (form_json_to_widgets_dict (c_form fmt_collection)) ''fmt'' =
     Some \<lparr>fw_label = Some ''Format'', fw_labels = [],
           fw_values = [''a'', ''b''], fw_title = ''Format'',
           fw_type = ''radio'', fw_columns = 1, fw_default = Some [''a'', ''b'']\<rparr> \<and>
   (\<exists>w. map_of (widget_defs (snd (build_form fmt_collection init))) ''fmt'' = Some w \<and>
        vb_opts w = [''a'', ''b''] \<and> length (vb_buttons w) = 2 \<and>
        \<not> tb_value (vb_buttons w ! 0) \<and> tb_value (vb_buttons w ! 1))"
proof -
  have h1: "fst (build_form fmt_collection init) = None"
    by (simp add: fmt_built)
  have h2: "map_of (form_json_to_widgets_dict (c_form fmt_collection)) ''fmt'' =
     Some \<lparr>fw_label = Some ''Format'', fw_labels = [],
           fw_values = [''a'', ''b''], fw_title = ''Format'',
           fw_type = ''radio'', fw_columns = 1, fw_default = Some [''a'', ''b'']\<rparr>"
    by (simp add: fmt_translated)
  show ?thesis
    using h1 h2 C2_default_state [OF h1 h2] by (simp add: get_or_def) fastforce
qed

section \<open>Mutual exclusion of radio buttons\<close>

lemma filter_all_but_one:
  "\<forall>j < length xs. j \<noteq> i \<longrightarrow> \<not> P (xs ! j) \<Longrightarrow> length (filter P xs) \<le> 1"
proof (induction xs arbitrary: i)
  case Nil
  show ?case by simp
next
  case (Cons x xs)
  show ?case
  proof (cases i)
    case 0
    have "\<forall>y \<in> set xs. \<not> P y"
    proof
      fix y assume "y \<in> set xs"
      then obtain j where "j < length xs" "xs ! j = y"
        by (auto simp: in_set_conv_nth)
      then show "\<not> P y"
        using Cons.prems 0 by (auto dest: spec [of _ "Suc j"])
    qed
    then have "filter P xs = []" by (simp add: filter_empty_conv)
    then show ?thesis by simp
  next
    case (Suc i')
    have "\<not> P x" using Cons.prems Suc by (auto dest: spec [of _ 0])
    moreover have "\<forall>j < length xs. j \<noteq> i' \<longrightarrow> \<not> P (xs ! j)"
      using Cons.prems Suc by (auto dest: spec [of _ "Suc j" for j])
    ultimately show ?thesis
      using Cons.IH [of i'] by simp
  qed
qed

lemma filter_update_off:
  "\<not> P y \<Longrightarrow> length (filter P (xs[i := y])) \<le> length (filter P xs)"
proof (induction xs arbitrary: i)
  case Nil
  show ?case by simp
next
  case (Cons x xs)
  then show ?case
    by (cases i) (auto intro: le_SucI)
qed

lemma others_off_exclusive: "length (filter tb_value (others_off i bs)) \<le> 1"
  by (rule filter_all_but_one [of _ i]) (simp add: others_off_nth)

lemma assign_value_exclusive:
  assumes "length (filter tb_value bs) \<le> 1"
  shows "length (filter tb_value (fst (assign_value Radio i v bs))) \<le> 1"
proof (cases "tb_value (bs ! i) = v")
  case True
  then show ?thesis using assms by (simp add: assign_value_def)
next
  case False
  show ?thesis
  proof (cases v)
    case True
    then show ?thesis
      using False others_off_exclusive [of i "bs[i := (bs ! i)\<lparr>tb_value := True\<rparr>]"]
      by (simp add: assign_value_def Let_def)
  next
    case v: False
    have "length (filter tb_value (bs[i := (bs ! i)\<lparr>tb_value := False\<rparr>])) \<le>
            length (filter tb_value bs)"
      by (rule filter_update_off) simp
    then show ?thesis
      using False v assms by (simp add: assign_value_def Let_def)
  qed
qed

lemma defaults_fold_exclusive:
  "length (filter tb_value bs) \<le> 1 \<Longrightarrow>
   length (filter tb_value (defaults_fold Radio dv ios bs)) \<le> 1"
  unfolding defaults_fold_def
proof (induction ios arbitrary: bs)
  case Nil
  then show ?case by simp
next
  case (Cons io ios)
  show ?case
    using Cons.IH [OF assign_value_exclusive [OF Cons.prems]] by simp
qed

lemma built_buttons_exclusive:
  "kind_of fw = Radio \<Longrightarrow> length (filter tb_value (built_buttons fw)) \<le> 1"
proof -
  assume k: "kind_of fw = Radio"
  have "filter tb_value (make_buttons (fw_labels fw) (fw_values fw)) = []"
    using make_buttons_off by (simp add: filter_empty_conv)
  then show ?thesis
    using defaults_fold_exclusive [of "make_buttons (fw_labels fw) (fw_values fw)"] k
    by (simp add: built_buttons_def)
qed

lemma count_on_values: "length (filter id (map tb_value bs)) = length (filter tb_value bs)"
  by (induction bs) simp_all

lemma radio_exclusive_cores:
  "radio_exclusive defs =
     (\<forall>kc \<in> set (cores defs). fst (snd kc) = Radio \<longrightarrow>
                               length (filter id (snd (snd (snd kc)))) \<le> 1)"
  by (simp add: radio_exclusive_def cores_def core_def count_on_values)

lemma radio_exclusive_cong:
  "cores defs' = cores defs \<Longrightarrow> radio_exclusive defs' = radio_exclusive defs"
  by (simp add: radio_exclusive_cores)

lemma set_update_subset: "set (AList.update k v al) \<subseteq> insert (k, v) (set al)"
  by (induction al) auto

lemma on_change_stable: "stable st \<Longrightarrow> stable (snd (on_change c st))"
  using radio_exclusive_cong [OF on_change_cores, of c st]
  by (simp add: stable_def on_change_well_formed)

lemma built_stable:
  assumes "fst (build_form c st) = None"
  shows "stable (snd (build_form c st))"
proof -
  have "radio_exclusive (widget_defs (snd (build_form c st)))"
    unfolding radio_exclusive_cores build_form_success(3) [OF assms]
    using built_buttons_exclusive by (auto simp: built_core_def count_on_values)
  then show ?thesis
    using build_form_success(2) [OF assms] by (simp add: stable_def)
qed

lemma toggle_unfold:
  assumes "map_of (widget_defs st) key = Some w" "i < length (vb_buttons w)"
  shows "toggle c key i st =
     (let r = assign_value (vb_kind w) i (\<not> tb_value (vb_buttons w ! i)) (vb_buttons w);
          st1 = st\<lparr>widget_defs :=
                    AList.update key (w\<lparr>vb_buttons := fst r\<rparr>) (widget_defs st)\<rparr>
      in if snd r then on_change c st1 else (None, st1))"
  using assms by (simp add: toggle_def Let_def split: prod.splits)

lemma update_stable:
  assumes s: "stable st" and w: "map_of (widget_defs st) key = Some w"
    and len: "length bs = length (vb_buttons w)"
    and ex: "vb_kind w = Radio \<longrightarrow> length (filter tb_value bs) \<le> 1"
  shows "stable (st\<lparr>widget_defs := AList.update key (w\<lparr>vb_buttons := bs\<rparr>) (widget_defs st)\<rparr>)"
proof -
  let ?w' = "w\<lparr>vb_buttons := bs\<rparr>"
  let ?defs' = "AList.update key ?w' (widget_defs st)"
  have wf: "well_formed st" and re: "radio_exclusive (widget_defs st)"
    using s by (simp_all add: stable_def)
  obtain fw where fw: "map_of (form_widgets st) key = Some fw"
    and opts: "vb_opts w = fw_values fw"
    and l: "length (vb_buttons w) = length (fw_values fw)"
    using well_formed_lookup [OF wf w] by blast
  have sub: "set ?defs' \<subseteq> insert (key, ?w') (set (widget_defs st))"
    by (rule set_update_subset)
  have new: "well_formed_core (form_widgets st) (key, core ?w')"
    using fw opts l len by (simp add: well_formed_core_def core_def)
  have old: "\<forall>kw \<in> set (widget_defs st).
               well_formed_core (form_widgets st) (fst kw, core (snd kw))"
    using wf by (simp add: well_formed_def cores_def list_all_iff)
  have "\<forall>kw \<in> set ?defs'. well_formed_core (form_widgets st) (fst kw, core (snd kw))"
    using sub new old by auto
  then have a: "list_all (well_formed_core (form_widgets st)) (cores ?defs')"
    by (simp add: cores_def list_all_iff)
  have b: "distinct (map fst ?defs')"
    using wf by (simp add: well_formed_def distinct_update)
  have c: "radio_exclusive ?defs'"
    unfolding radio_exclusive_def
  proof
    fix kw assume "kw \<in> set ?defs'"
    then consider "kw = (key, ?w')" | "kw \<in> set (widget_defs st)"
      using sub by auto
    then show "vb_kind (snd kw) = Radio \<longrightarrow>
                 length (filter tb_value (vb_buttons (snd kw))) \<le> 1"
    proof cases
      case 1
      then show ?thesis using ex by simp
    next
      case 2
      then show ?thesis using re by (simp add: radio_exclusive_def)
    qed
  qed
  show ?thesis
    using a b c by (simp add: stable_def well_formed_def)
qed

lemma toggle_stable:
  assumes "stable st"
  shows "stable (snd (toggle c key i st))"
proof (cases "map_of (widget_defs st) key")
  case None
  then show ?thesis using assms by (simp add: toggle_def)
next
  case (Some w)
  show ?thesis
  proof (cases "i < length (vb_buttons w)")
    case False
    then show ?thesis using assms Some by (simp add: toggle_def)
  next
    case True
    let ?r = "assign_value (vb_kind w) i (\<not> tb_value (vb_buttons w ! i)) (vb_buttons w)"
    let ?st1 = "st\<lparr>widget_defs :=
                    AList.update key (w\<lparr>vb_buttons := fst ?r\<rparr>) (widget_defs st)\<rparr>"
    have "(key, w) \<in> set (widget_defs st)"
      using Some by (rule map_of_SomeD)
    then have "vb_kind w = Radio \<longrightarrow> length (filter tb_value (vb_buttons w)) \<le> 1"
      using assms by (auto simp: stable_def radio_exclusive_def)
    then have ex: "vb_kind w = Radio \<longrightarrow> length (filter tb_value (fst ?r)) \<le> 1"
      using assign_value_exclusive [of "vb_buttons w" i] by auto
    have s1: "stable ?st1"
      by (rule update_stable [OF assms Some _ ex]) simp
    show ?thesis
      using s1 on_change_stable [OF s1, of c]
      by (simp add: toggle_unfold [OF Some True] Let_def)
  qed
qed

lemma run_events_stable: "stable st \<Longrightarrow> stable (run_events c evs st)"
proof (induction evs arbitrary: st)
  case Nil
  then show ?case by simp
next
  case (Cons ev evs)
  obtain key i where "ev = (key, i)" by (cases ev)
  then show ?case
    using Cons.IH [OF toggle_stable [OF Cons.prems, of c key i]] by simp
qed

lemma first_on_take:
  "first_on ps = take 1 (map fst (filter (\<lambda>(opt, tb). tb_value tb) ps))"
  by (induction ps rule: first_on.induct) simp_all

lemma get_value_radio_first:
  "get_value_radio tb_list opts = take 1 (get_value_checkbox tb_list opts)"
  by (simp add: get_value_radio_def get_value_checkbox_def first_on_take)

text \<open>
  Claim C3. After a construction that succeeds and any sequence of clicks, a radio control
  has at most one button on, and its extraction closure returns the first option whose
  button is on as a one-element list, or the empty list: never more than one value.
\<close>

theorem C3_radio_exclusive:
  assumes "fst (build_form c st0) = None"
    and "map_of (widget_defs (run_events c evs (snd (build_form c st0)))) key = Some w"
    and "vb_kind w = Radio"
  shows "length (filter tb_value (vb_buttons w)) \<le> 1 \<and>
         get_value w =
           take 1 (nths (vb_opts w) {i. i < length (vb_buttons w) \<and> tb_value (vb_buttons w ! i)}) \<and>
         length (get_value w) \<le> 1"
proof -
  have "stable (run_events c evs (snd (build_form c st0)))"
    using run_events_stable [OF built_stable [OF assms(1)]] .
  moreover have "(key, w) \<in> set (widget_defs (run_events c evs (snd (build_form c st0))))"
    using assms(2) by (rule map_of_SomeD)
  ultimately have "length (filter tb_value (vb_buttons w)) \<le> 1"
    using assms(3) by (auto simp: stable_def radio_exclusive_def)
  moreover have "get_value w =
      take 1 (nths (vb_opts w) {i. i < length (vb_buttons w) \<and> tb_value (vb_buttons w ! i)})"
    using assms(3) by (simp add: get_value_def get_value_radio_first get_value_checkbox_nths)
  ultimately show ?thesis by simp
qed

lemma fmt_click:
  "run_events fmt_collection [(''fmt'', 0)] (snd (build_form fmt_collection init)) =
      \<lparr>collection_id = None, request = [(''fmt'', [''a''])],
       widget_defs =
         [(''fmt'',
           \<lparr>vb_html = ''<h3>Format (select one)</h3>'', vb_columns = 1,
            vb_buttons =
              [\<lparr>tb_value = True, tb_description = ''a'', tb_display = None\<rparr>,
               \<lparr>tb_value = False, tb_description = ''b'', tb_display = None\<rparr>],
            vb_kind = Radio, vb_opts = [''a'', ''b'']\<rparr>)],
       dropdown = None, output_area = Download_form ''T'' [''fmt''],
       selection_output = Some [(''fmt'', [''a''])],
       form_widgets =
         [(''fmt'',
           \<lparr>fw_label = Some ''Format'', fw_labels = [],
            fw_values = [''a'', ''b''], fw_title = ''Format (select one)'',
            fw_type = ''radio'', fw_columns = 1, fw_default = Some [''a'', ''b'']\<rparr>)],
       selection = [(''fmt'', [''a''])]\<rparr>"
  by (simp add: fmt_built more_example_defs model_defs)

theorem C3_radio_exclusive_witness:
  "fst (build_form fmt_collection init) = None \<and>
   map_of (widget_defs (run_events fmt_collection [(''fmt'', 0)]
                          (snd (build_form fmt_collection init)))) ''fmt'' =
     Some \<lparr>vb_html = ''<h3>Format (select one)</h3>'', vb_columns = 1,
           vb_buttons =
             [\<lparr>tb_value = True, tb_description = ''a'', tb_display = None\<rparr>,
              \<lparr>tb_value = False, tb_description = ''b'', tb_display = None\<rparr>],
           vb_kind = Radio, vb_opts = [''a'', ''b'']\<rparr> \<and>
   get_value \<lparr>vb_html = ''<h3>Format (select one)</h3>'', vb_columns = 1,
           vb_buttons =
             [\<lparr>tb_value = True, tb_description = ''a'', tb_display = None\<rparr>,
              \<lparr>tb_value = False, tb_description = ''b'', tb_display = None\<rparr>],
           vb_kind = Radio, vb_opts = [''a'', ''b'']\<rparr> = [''a'']"
proof -
  let ?w = "\<lparr>vb_html = ''<h3>Format (select one)</h3>'', vb_columns = 1,
           vb_buttons =
             [\<lparr>tb_value = True, tb_description = ''a'', tb_display = None\<rparr>,
              \<lparr>tb_value = False, tb_description = ''b'', tb_display = None\<rparr>],
           vb_kind = Radio, vb_opts = [''a'', ''b'']\<rparr>"
  have h1: "fst (build_form fmt_collection init) = None"
    by (simp add: fmt_built)
  have h2: "map_of (widget_defs (run_events fmt_collection [(''fmt'', 0)]
                          (snd (build_form fmt_collection init)))) ''fmt'' = Some ?w"
    by (simp only: fmt_click) simp
  have h3: "vb_kind ?w = Radio" by simp
  have "{i. i < Suc (Suc 0) \<and> tb_value ([\<lparr>tb_value = True, tb_description = ''a'', tb_display = None\<rparr>,
              \<lparr>tb_value = False, tb_description = ''b'', tb_display = None\<rparr>] ! i)} = {0}"
    by (auto simp: less_Suc_eq)
  then have "get_value ?w = [''a'']"
    using C3_radio_exclusive [OF h1 h2 h3] by (simp add: nths_Cons)
  then show ?thesis
    using h1 h2 by simp
qed

section \<open>The request after a click\<close>

text \<open>
  Claim C7 at a failing input. A radio button is clicked on and then off. The second click
  changes the value to off, \<^verbatim>\<open>on_radio_click\<close> does nothing for it, and the request is not
  recomputed: it keeps the entry of the field, whose extracted value is now empty.
\<close>

theorem C7_radio_untoggle_stale_request:
  "request (run_events level_collection [(''level'', 0), (''level'', 0)]
              (snd (build_form level_collection init))) = [(''level'', [''a''])] \<and>
   extracted (run_events level_collection [(''level'', 0), (''level'', 0)]
                (snd (build_form level_collection init))) ''level'' = []"
  by (simp add: more_example_defs model_defs extracted_def)

text \<open>
  Claim C1 at a failing input. The first button of a radio field is clicked and the
  evaluator answers that only the other option is legal. The control is the grid of toggle
  buttons, so the branch of line 108 hides the button; its value stays on, the option list
  is not replaced, and the recomputed request keeps the entry of the field.
\<close>

theorem C1_radio_illegal_choice_kept:
  "response narrowing_collection
     (snd (toggle narrowing_collection ''level'' 0 (snd (build_form narrowing_collection init))))
     = [(''level'', [''b''])] \<and>
   extracted (snd (toggle narrowing_collection ''level'' 0
                     (snd (build_form narrowing_collection init)))) ''level'' = [''a''] \<and>
   request (snd (toggle narrowing_collection ''level'' 0
                   (snd (build_form narrowing_collection init)))) = [(''level'', [''a''])] \<and>
   map_of (widget_defs (snd (toggle narrowing_collection ''level'' 0
                               (snd (build_form narrowing_collection init))))) ''level'' =
     Some \<lparr>vb_html = ''<h3>Level (select one)</h3>'', vb_columns = 1,
           vb_buttons =
             [\<lparr>tb_value = True, tb_description = ''a'', tb_display = Some ''none''\<rparr>,
              \<lparr>tb_value = False, tb_description = ''b'', tb_display = Some []\<rparr>],
           vb_kind = Radio, vb_opts = [''a'', ''b'']\<rparr>"
  by (simp add: more_example_defs model_defs extracted_def response_def)

subsection \<open>What holds of the request in every reachable state\<close>

text \<open>
  After a construction that succeeds and any sequence of clicks, every key of the request
  is the name of a schema entry that is not ignored, and every value is a non-empty list.
  The request is empty after \<^verbatim>\<open>__init__\<close>.
\<close>

lemma selected_sound:
  "kv \<in> set (selected (cores defs)) \<Longrightarrow> snd kv \<noteq> [] \<and> fst kv \<in> fst ` set defs"
  by (auto simp: selected_def cores_def intro: rev_image_eqI)

lemma on_change_request_sound:
  assumes "well_formed st"
  shows "request_sound (snd (on_change c st))"
proof -
  have "request (snd (on_change c st)) = selected (cores (widget_defs (snd (on_change c st))))"
    using on_change_request [OF on_change_no_error [OF assms], of c] by (simp add: on_change_cores)
  then show ?thesis
    using selected_sound by (simp add: request_sound_def)
qed

lemma toggle_request_sound:
  assumes "stable st" "request_sound st"
  shows "request_sound (snd (toggle c key i st))"
proof (cases "map_of (widget_defs st) key")
  case None
  then show ?thesis using assms by (simp add: toggle_def)
next
  case (Some w)
  show ?thesis
  proof (cases "i < length (vb_buttons w)")
    case False
    then show ?thesis using assms Some by (simp add: toggle_def)
  next
    case True
    let ?r = "assign_value (vb_kind w) i (\<not> tb_value (vb_buttons w ! i)) (vb_buttons w)"
    let ?st1 = "st\<lparr>widget_defs :=
                    AList.update key (w\<lparr>vb_buttons := fst ?r\<rparr>) (widget_defs st)\<rparr>"
    have "(key, w) \<in> set (widget_defs st)"
      using Some by (rule map_of_SomeD)
    then have "vb_kind w = Radio \<longrightarrow> length (filter tb_value (vb_buttons w)) \<le> 1"
      using assms(1) by (auto simp: stable_def radio_exclusive_def)
    then have ex: "vb_kind w = Radio \<longrightarrow> length (filter tb_value (fst ?r)) \<le> 1"
      using assign_value_exclusive [of "vb_buttons w" i] by auto
    have s1: "stable ?st1"
      by (rule update_stable [OF assms(1) Some _ ex]) simp
    have "map fst (widget_defs ?st1) = map fst (widget_defs st)"
      using update_present_keys [OF Some] by simp
    then have "fst ` set (widget_defs ?st1) = fst ` set (widget_defs st)"
      by (metis set_map)
    then have r1: "request_sound ?st1"
      using assms(2) by (simp add: request_sound_def)
    have "request_sound (snd (on_change c ?st1))"
      using on_change_request_sound s1 by (simp add: stable_def)
    then show ?thesis
      using r1 by (simp add: toggle_unfold [OF Some True] Let_def)
  qed
qed

lemma run_events_request_sound:
  "stable st \<Longrightarrow> request_sound st \<Longrightarrow> request_sound (run_events c evs st)"
proof (induction evs arbitrary: st)
  case Nil
  then show ?case by simp
next
  case (Cons ev evs)
  obtain key i where "ev = (key, i)" by (cases ev)
  then show ?case
    using Cons.IH [OF toggle_stable [OF Cons.prems(1), of c key i]
                      toggle_request_sound [OF Cons.prems, of c key i]]
    by simp
qed

lemma built_request_sound:
  assumes "fst (build_form c st) = None"
  shows "request_sound (snd (build_form c st))"
proof -
  obtain st' where r: "build_form c st =
           (map_option unsupported_error
              (find unsupported (form_json_to_widgets_dict (c_form c))), st')"
    and ok: "find unsupported (form_json_to_widgets_dict (c_form c)) = None \<longrightarrow>
            well_formed st' \<and>
            cores (widget_defs st') =
              map (\<lambda>kf. (fst kf, built_core (snd kf))) (form_json_to_widgets_dict (c_form c)) \<and>
            request st' = selected (cores (widget_defs st')) \<and>
            output_area st' = Download_form (c_title c) (map fst (widget_defs st'))"
    using build_form_result [of c st] by (elim exE conjE) (rule that)
  have "request st' = selected (cores (widget_defs st'))"
    using ok build_form_success(1) [OF assms] by simp
  then show ?thesis
    using r selected_sound by (simp add: request_sound_def)
qed

lemma toggle_keys: "map fst (widget_defs (snd (toggle c key i st))) = map fst (widget_defs st)"
proof -
  have oc: "\<And>s. map fst (widget_defs (snd (on_change c s))) = map fst (widget_defs s)"
    using on_change_cores cores_keys by metis
  show ?thesis
    by (auto simp: toggle_def Let_def oc update_present_keys split: option.splits prod.splits)
qed

lemma run_events_keys: "map fst (widget_defs (run_events c evs st)) = map fst (widget_defs st)"
  by (induction evs arbitrary: st) (auto simp: toggle_keys)

lemma init_request: "request init = [] \<and> widget_defs init = []"
  by (simp add: init_def update_selection_state_def)

lemma reachable_request_sound:
  assumes "fst (build_form c st0) = None"
    and "kv \<in> set (request (run_events c evs (snd (build_form c st0))))"
  shows "snd kv \<noteq> [] \<and>
         fst kv \<in> {entry_name w | w. w \<in> set (c_form c) \<and> \<not> ignored w}"
proof -
  let ?b = "snd (build_form c st0)"
  have "request_sound (run_events c evs ?b)"
    using run_events_request_sound [OF built_stable [OF assms(1)] built_request_sound [OF assms(1)]] .
  then have a: "snd kv \<noteq> []" and "fst kv \<in> fst ` set (widget_defs (run_events c evs ?b))"
    using assms(2) by (simp_all add: request_sound_def)
  then have "fst kv \<in> set (map fst (widget_defs ?b))"
    using run_events_keys [of c evs ?b] by (metis set_map)
  also have "map fst (widget_defs ?b) = map fst (cores (widget_defs ?b))"
    by (simp add: cores_keys)
  also have "\<dots> = map fst (form_json_to_widgets_dict (c_form c))"
    by (simp add: build_form_success(3) [OF assms(1)] comp_def)
  finally have "fst kv \<in> fst ` set (form_json_to_widgets_dict (c_form c))"
    by simp
  then show ?thesis
    using a by (simp add: translated_keys)
qed

section \<open>Extraction from a checkbox control in every reachable state\<close>

lemma shapes_cores:
  "shapes defs =
     map (\<lambda>kc. (fst kc, fst (snd kc), fst (snd (snd kc)), length (snd (snd (snd kc)))))
       (cores defs)"
  by (simp add: shapes_def cores_def core_def)

lemma on_change_shapes: "shapes (widget_defs (snd (on_change c st))) = shapes (widget_defs st)"
  by (simp add: shapes_cores on_change_cores)

lemma shapes_update:
  "map_of defs k = Some w \<Longrightarrow> length bs = length (vb_buttons w) \<Longrightarrow>
   shapes (AList.update k (w\<lparr>vb_buttons := bs\<rparr>) defs) = shapes defs"
  by (induction defs) (auto simp: shapes_def)

lemma toggle_shapes: "shapes (widget_defs (snd (toggle c key i st))) = shapes (widget_defs st)"
proof (cases "map_of (widget_defs st) key")
  case None
  then show ?thesis by (simp add: toggle_def)
next
  case (Some w)
  show ?thesis
  proof (cases "i < length (vb_buttons w)")
    case False
    then show ?thesis using Some by (simp add: toggle_def)
  next
    case True
    let ?r = "assign_value (vb_kind w) i (\<not> tb_value (vb_buttons w ! i)) (vb_buttons w)"
    have "shapes (AList.update key (w\<lparr>vb_buttons := fst ?r\<rparr>) (widget_defs st)) =
            shapes (widget_defs st)"
      by (rule shapes_update [OF Some]) simp
    then show ?thesis
      by (simp add: toggle_unfold [OF Some True] Let_def on_change_shapes)
  qed
qed

lemma run_events_shapes: "shapes (widget_defs (run_events c evs st)) = shapes (widget_defs st)"
  by (induction evs arbitrary: st) (auto simp: toggle_shapes)

lemma shapes_lookup:
  "map_of (shapes defs) k =
     map_option (\<lambda>w. (vb_kind w, vb_opts w, length (vb_buttons w))) (map_of defs k)"
  by (induction defs) (auto simp: shapes_def)

lemma built_shapes_lookup:
  assumes "distinct (map fst fws)" "map_of fws key = Some fw"
  shows "map_of (map (\<lambda>kf. (fst kf, kind_of (snd kf), fw_values (snd kf),
                              length (fw_values (snd kf)))) fws) key =
           Some (kind_of fw, fw_values fw, length (fw_values fw))"
  using assms by (induction fws) (auto split: if_splits)

lemma reachable_shape:
  assumes "fst (build_form c st0) = None"
    and "map_of (form_json_to_widgets_dict (c_form c)) key = Some fw"
  shows "\<exists>w. map_of (widget_defs (run_events c evs (snd (build_form c st0)))) key = Some w \<and>
             vb_kind w = kind_of fw \<and> vb_opts w = fw_values fw \<and>
             length (vb_buttons w) = length (fw_values fw)"
proof -
  let ?b = "snd (build_form c st0)"
  have "shapes (widget_defs (run_events c evs ?b)) = shapes (widget_defs ?b)"
    by (rule run_events_shapes)
  also have "\<dots> = map (\<lambda>kf. (fst kf, kind_of (snd kf), fw_values (snd kf),
                              length (fw_values (snd kf)))) (form_json_to_widgets_dict (c_form c))"
    by (simp add: shapes_cores build_form_success(3) [OF assms(1)] built_core_def comp_def)
  finally have "map_of (shapes (widget_defs (run_events c evs ?b))) key =
      Some (kind_of fw, fw_values fw, length (fw_values fw))"
    using built_shapes_lookup [OF translated_distinct assms(2)] by simp
  then show ?thesis
    by (auto simp: shapes_lookup)
qed

text \<open>
  Claim C8. After a construction that succeeds and any sequence of clicks, the control of a
  checkbox field has one button per declared option, and its extraction function returns
  exactly the options whose button is on, in the declared order. For the schema with the
  single field \<^verbatim>\<open>variable\<close> (values a and b, no defaults) and any constraint evaluator,
  the request is empty after construction, and is \<^verbatim>\<open>{"variable": ["a"]}\<close> after a click
  on the first button.
\<close>

theorem C8_checkbox_extraction:
  assumes "fst (build_form c st0) = None"
    and "map_of (form_json_to_widgets_dict (c_form c)) key = Some fw"
    and "fw_type fw = ''checkbox''"
  shows "(\<exists>w. map_of (widget_defs (run_events c evs (snd (build_form c st0)))) key = Some w \<and>
              vb_kind w = Checkbox \<and>
              length (vb_buttons w) = length (fw_values fw) \<and>
              get_value w =
                nths (fw_values fw) {i. i < length (fw_values fw) \<and> tb_value (vb_buttons w ! i)}) \<and>
         request (snd (build_form (variable_collection\<lparr>apply_constraints := ac\<rparr>) init)) = [] \<and>
         request (snd (toggle (variable_collection\<lparr>apply_constraints := ac\<rparr>) ''variable'' 0
                         (snd (build_form (variable_collection\<lparr>apply_constraints := ac\<rparr>) init))))
           = [(''variable'', [''a''])]"
proof -
  obtain w where w: "map_of (widget_defs (run_events c evs (snd (build_form c st0)))) key = Some w"
    and k: "vb_kind w = kind_of fw" and o: "vb_opts w = fw_values fw"
    and l: "length (vb_buttons w) = length (fw_values fw)"
    using reachable_shape [OF assms(1,2), of evs] by blast
  have c: "vb_kind w = Checkbox"
    using k assms(3) by (simp add: kind_of_def)
  have "get_value w =
          nths (fw_values fw) {i. i < length (fw_values fw) \<and> tb_value (vb_buttons w ! i)}"
    using c o l by (simp add: get_value_def get_value_checkbox_nths)
  then show ?thesis
    using w c l variable_scenario [of ac] by blast
qed

lemma variable_clicks:
  "widget_defs (run_events variable_collection [(''variable'', 0), (''variable'', 1)]
                  (snd (build_form variable_collection init))) =
     [(''variable'',
       \<lparr>vb_html = ''<h3></h3>'', vb_columns = 1,
        vb_buttons =
          [\<lparr>tb_value = True, tb_description = ''Alpha'', tb_display = Some []\<rparr>,
           \<lparr>tb_value = True, tb_description = ''b'', tb_display = Some ''none''\<rparr>],
        vb_kind = Checkbox, vb_opts = [''a'', ''b'']\<rparr>)]"
  by (simp add: variable_built example_defs model_defs)

lemma variable_translated:
  "form_json_to_widgets_dict (c_form variable_collection) =
     [(''variable'',
       \<lparr>fw_label = None, fw_labels = [(''a'', ''Alpha'')],
        fw_values = [''a'', ''b''], fw_title = [], fw_type = ''checkbox'',
        fw_columns = 1, fw_default = None\<rparr>)]"
  by (simp add: example_defs model_defs)

theorem C8_checkbox_extraction_witness:
  "fst (build_form variable_collection init) = None \<and>
   map_of (form_json_to_widgets_dict (c_form variable_collection)) ''variable'' =
     Some \<lparr>fw_label = None, fw_labels = [(''a'', ''Alpha'')],
           fw_values = [''a'', ''b''], fw_title = [], fw_type = ''checkbox'',
           fw_columns = 1, fw_default = None\<rparr> \<and>
   extracted (run_events variable_collection [(''variable'', 0), (''variable'', 1)]
                (snd (build_form variable_collection init))) ''variable'' = [''a'', ''b'']"
proof -
  let ?fw = "\<lparr>fw_label = None, fw_labels = [(''a'', ''Alpha'')],
           fw_values = [''a'', ''b''], fw_title = [], fw_type = ''checkbox'',
           fw_columns = 1, fw_default = None\<rparr>"
  let ?st = "run_events variable_collection [(''variable'', 0), (''variable'', 1)]
                (snd (build_form variable_collection init))"
  have h1: "fst (build_form variable_collection init) = None"
    by (simp add: variable_built)
  have h2: "map_of (form_json_to_widgets_dict (c_form variable_collection)) ''variable'' = Some ?fw"
    by (simp add: variable_translated)
  have h3: "fw_type ?fw = ''checkbox''" by simp
  obtain w where w: "map_of (widget_defs ?st) ''variable'' = Some w"
    and g: "get_value w =
              nths (fw_values ?fw) {i. i < length (fw_values ?fw) \<and> tb_value (vb_buttons w ! i)}"
    using C8_checkbox_extraction [OF h1 h2 h3, of "[(''variable'', 0), (''variable'', 1)]"] by blast
  have b: "vb_buttons w =
          [\<lparr>tb_value = True, tb_description = ''Alpha'', tb_display = Some []\<rparr>,
           \<lparr>tb_value = True, tb_description = ''b'', tb_display = Some ''none''\<rparr>]"
    using w unfolding variable_clicks by auto
  have "{i. i < length (fw_values ?fw) \<and> tb_value (vb_buttons w ! i)} = {0, 1}"
    unfolding b by (auto simp: less_Suc_eq)
  then have "get_value w = [''a'', ''b'']"
    using g by (simp add: nths_Cons)
  then have "extracted ?st ''variable'' = [''a'', ''b'']"
    using w by (simp add: extracted_def)
  then show ?thesis
    using h1 h2 by simp
qed

end
